theory Spec2Isabelle
  imports Main "HOL-Library.AList" "HOL-Library.Multiset"
begin

section \<open>The installer of tsuru-client (tsuru/installer/install.go)\<close>

text \<open>
  A shallow embedding of the orchestration code of \<^verbatim>\<open>install.go\<close>: the machine pool
  allocator \<^verbatim>\<open>ProvisionMachines\<close>, the apps pool policy \<^verbatim>\<open>ProvisionPool\<close>, the
  component loop and the host registration of \<^verbatim>\<open>Install.Run\<close>, \<^verbatim>\<open>addInstallHosts\<close>,
  and the configuration resolver \<^verbatim>\<open>parseConfigFile\<close> with \<^verbatim>\<open>parseDriverOptsSlice\<close>.

  Conventions.
  \<^item> A Go map is an association list with distinct keys; \<^verbatim>\<open>m[k] = v\<close> is
    \<^const>\<open>AList.update\<close> and \<^verbatim>\<open>range m\<close> visits the entries in list order. Go leaves the
    iteration order unspecified, so statements about a \<^verbatim>\<open>range\<close> loop are made for every
    list that represents the map. Reading, \<^verbatim>\<open>len\<close> and \<^verbatim>\<open>range\<close> do not tell a nil map
    from an empty one, so a map that is only read is \<open>[]\<close> in both cases. Assigning into
    a nil map panics: the one map field the code assigns into after it may have become
    nil, \<^verbatim>\<open>CoreDriversOpts\<close>, is an \<open>option\<close>, with \<open>None\<close> for the nil map.
  \<^item> Go's \<^verbatim>\<open>int\<close> is \<^typ>\<open>int\<close>: the only arithmetic is \<^verbatim>\<open>i++\<close> below a bound,
    \<^verbatim>\<open>i % len(v)\<close> and a subtraction of a smaller non-negative number, none of which can
    leave the 64-bit range.
  \<^item> A function that returns \<^verbatim>\<open>(T, error)\<close> returns \<open>failure + T\<close>; a runtime panic is
    a failure of its own kind, since it is not an error value and is never wrapped.
  \<^item> Calls on an external collaborator (the provisioner, a component, the HTTP
    client) thread a state of that collaborator through the model.
\<close>

subsection \<open>Values, failures, machines\<close>

text \<open>A value of type \<^verbatim>\<open>interface{}\<close> as the configuration reader produces it.\<close>

datatype val =
    VNil
  | VString string
  | VInt int
  | VBool bool
  | VSlice "val list"
  | VMap "(val \<times> val) list"

datatype panic = DivideByZero | SliceBoundsOutOfRange | InterfaceConversion | AssignToNilMap

text \<open>\<open>Error msg\<close> is an error value whose \<^verbatim>\<open>Error()\<close> text is \<open>msg\<close>.\<close>

datatype failure = Error string | Panic panic

text \<open>\<^verbatim>\<open>dm.DriverOpts\<close>, a \<^verbatim>\<open>map[string]interface{}\<close>.\<close>

type_synonym DriverOpts = "(string \<times> val) list"

text \<open>\<^verbatim>\<open>map[string][]interface{}\<close>: for every option name the list of candidate values.\<close>

type_synonym DriversOpts = "(string \<times> val list) list"

text \<open>
  \<^verbatim>\<open>dm.Machine\<close> with the fields and accessors \<^verbatim>\<open>install.go\<close> reads. The driver
  descriptor is opaque (\<open>'d\<close>).
\<close>

record 'd Machine =
  Name :: string
  DriverName :: string
  Driver :: 'd
  SSHKeyPath :: string
  CAPath :: string
  PrivateAddress :: string

text \<open>
  \<^verbatim>\<open>dm.MachineProvisioner\<close>: \<^verbatim>\<open>ProvisionMachine(opts)\<close> returns a machine or an error
  and changes the infrastructure \<open>'s\<close>.
\<close>

type_synonym ('d, 's) MachineProvisioner =
  "DriverOpts \<Rightarrow> 's \<Rightarrow> (string + 'd Machine) \<times> 's"

subsection \<open>ProvisionMachines\<close>

text \<open>
  The inner loop \<^verbatim>\<open>for k, v := range configs { idx := i % len(v); opts[k] = v[idx] }\<close>.
  With \<^verbatim>\<open>len(v) = 0\<close> the remainder panics.
\<close>

fun ProvisionMachines_opts :: "nat \<Rightarrow> DriversOpts \<Rightarrow> DriverOpts \<Rightarrow> failure + DriverOpts" where
  "ProvisionMachines_opts i [] opts = Inr opts"
| "ProvisionMachines_opts i ((k, v) # configs) opts =
     (if length v = 0 then Inl (Panic DivideByZero)
      else let idx = i mod length v
           in ProvisionMachines_opts i configs (AList.update k (v ! idx) opts))"

text \<open>The outer loop \<^verbatim>\<open>for i := 0; i < numMachines; i++\<close>.\<close>

function ProvisionMachines_loop ::
  "('d, 's) MachineProvisioner \<Rightarrow> int \<Rightarrow> DriversOpts \<Rightarrow> nat \<Rightarrow> 'd Machine list \<Rightarrow> 's
     \<Rightarrow> (failure + 'd Machine list) \<times> 's" where
  "ProvisionMachines_loop p numMachines configs i machines s =
     (if int i < numMachines then
        (case ProvisionMachines_opts i configs [] of
           Inl e \<Rightarrow> (Inl e, s)
         | Inr opts \<Rightarrow>
             (case p opts s of
                (Inl err, s') \<Rightarrow> (Inl (Error (''failed to provision machines: '' @ err)), s')
              | (Inr m, s') \<Rightarrow>
                  ProvisionMachines_loop p numMachines configs (Suc i) (machines @ [m]) s'))
      else (Inr machines, s))"
  by pat_completeness auto
termination
  by (relation "measure (\<lambda>(p, numMachines, configs, i, machines, s). nat (numMachines - int i))")
    auto

definition ProvisionMachines ::
  "('d, 's) MachineProvisioner \<Rightarrow> int \<Rightarrow> DriversOpts \<Rightarrow> 's \<Rightarrow> (failure + 'd Machine list) \<times> 's" where
  "ProvisionMachines p numMachines configs s = ProvisionMachines_loop p numMachines configs 0 [] s"

declare ProvisionMachines_loop.simps [simp del]

subsection \<open>parseDriverOptsSlice\<close>

text \<open>
  The loop \<^verbatim>\<open>for k, v := range unparsed\<close>: entries whose key is not a string are skipped,
  a value that is a \<^verbatim>\<open>[]interface{}\<close> is kept as it is, any other value becomes a
  one-element list.
\<close>

fun parseDriverOptsSlice_loop :: "(val \<times> val) list \<Rightarrow> DriversOpts \<Rightarrow> DriversOpts" where
  "parseDriverOptsSlice_loop [] parsedOpts = parsedOpts"
| "parseDriverOptsSlice_loop ((VString k, v) # unparsed) parsedOpts =
     (case v of
        VSlice l \<Rightarrow> parseDriverOptsSlice_loop unparsed (AList.update k l parsedOpts)
      | _ \<Rightarrow> parseDriverOptsSlice_loop unparsed (AList.update k [v] parsedOpts))"
| "parseDriverOptsSlice_loop (_ # unparsed) parsedOpts =
     parseDriverOptsSlice_loop unparsed parsedOpts"

text \<open>
  \<open>sprintf_v\<close> stands for \<^verbatim>\<open>fmt.Sprintf("%+v", opts)\<close>, the rendering of a value in the
  error text.
\<close>

definition parseDriverOptsSlice :: "(val \<Rightarrow> string) \<Rightarrow> val \<Rightarrow> failure + DriversOpts" where
  "parseDriverOptsSlice sprintf_v opts =
     (case opts of
        VMap unparsed \<Rightarrow>
          Inr (if opts \<noteq> VNil then parseDriverOptsSlice_loop unparsed [] else [])
      | _ \<Rightarrow> Inl (Error (''failed to parse opts: '' @ sprintf_v opts)))"

subsection \<open>The installation plan\<close>

text \<open>
  \<^verbatim>\<open>dm.DockerMachineConfig\<close>, reached through the embedded pointer of
  \<^verbatim>\<open>TsuruInstallConfig\<close>: the fields \<^verbatim>\<open>parseConfigFile\<close> assigns.
\<close>

record DockerMachineConfig =
  DriverName :: string
  DriverOpts :: DriverOpts
  CAPath :: string
  Name :: string
  DockerHubMirror :: string

text \<open>
  \<^verbatim>\<open>TsuruInstallConfig\<close>. The two embedded pointers are fields holding the value pointed
  to; \<open>'c\<close> is \<^verbatim>\<open>ComponentsConfig\<close>, whose declaration is in another file.
  \<^verbatim>\<open>CoreDriversOpts\<close> is \<open>None\<close> when the map is nil and \<open>Some\<close> of its entries otherwise:
  line 144 of \<^verbatim>\<open>Run\<close> assigns into it. \<^verbatim>\<open>AppsDriversOpts\<close> is only read (by
  \<^verbatim>\<open>ProvisionPool\<close>), so its nil value, which the default has, is \<open>[]\<close>.
\<close>

record 'c TsuruInstallConfig =
  DockerMachineConfig :: DockerMachineConfig
  ComponentsConfig :: 'c
  CoreHosts :: int
  CoreDriversOpts :: "DriversOpts option"
  AppsHosts :: int
  DedicatedAppsHosts :: bool
  AppsDriversOpts :: DriversOpts

subsection \<open>ProvisionPool\<close>

text \<open>
  \<^verbatim>\<open>fmt.Errorf(prefix + "%s", err)\<close> on a returned error. A panic is not a returned
  value: it unwinds through the caller unchanged.
\<close>

fun errorf :: "string \<Rightarrow> failure \<Rightarrow> failure" where
  "errorf prefix (Error msg) = Error (prefix @ msg)"
| "errorf prefix (Panic pk) = Panic pk"

text \<open>
  The last branch is the slice expression \<^verbatim>\<open>hosts[:config.AppsHosts]\<close>; it is reached with
  \<^verbatim>\<open>AppsHosts <= len(hosts)\<close> and panics when \<^verbatim>\<open>AppsHosts\<close> is negative.
\<close>

definition ProvisionPool ::
  "('d, 's) MachineProvisioner \<Rightarrow> 'c TsuruInstallConfig \<Rightarrow> 'd Machine list \<Rightarrow> 's
     \<Rightarrow> (failure + 'd Machine list) \<times> 's" where
  "ProvisionPool p config hosts s =
     (if DedicatedAppsHosts config then
        ProvisionMachines p (AppsHosts config) (AppsDriversOpts config) s
      else if AppsHosts config > int (length hosts) then
        (case ProvisionMachines p (AppsHosts config - int (length hosts))
                (AppsDriversOpts config) s of
           (Inl err, s') \<Rightarrow> (Inl (errorf ''failed to provision pool hosts: '' err), s')
         | (Inr poolMachines, s') \<Rightarrow> (Inr (poolMachines @ hosts), s'))
      else if AppsHosts config < 0 then (Inl (Panic SliceBoundsOutOfRange), s)
      else (Inr (take (nat (AppsHosts config)) hosts), s))"

subsection \<open>The component loop of Install.Run\<close>

text \<open>
  A \<^verbatim>\<open>TsuruComponent\<close> with the two methods the loop calls. \<^verbatim>\<open>Install\<close> returns the
  error text, if any, and changes the world \<open>'w\<close> the cluster lives in.
\<close>

record ('cl, 'cc, 'w) TsuruComponent =
  Name :: string
  Install :: "'cl \<Rightarrow> 'cc \<Rightarrow> 'w \<Rightarrow> string option \<times> 'w"

text \<open>
  Lines 153 to 160 of \<^verbatim>\<open>Run\<close>, over the catalog \<^verbatim>\<open>TsuruComponents\<close> (declared in
  another file, so a parameter). The result is the error \<^verbatim>\<open>Run\<close> returns from inside
  the loop, or \<open>None\<close> when the loop runs to its end; \<open>stdout\<close> collects the writes to
  \<^verbatim>\<open>context.Stdout\<close>.
\<close>

fun Run_installComponents ::
  "('cl, 'cc, 'w) TsuruComponent list \<Rightarrow> 'cl \<Rightarrow> 'cc \<Rightarrow> string list \<Rightarrow> 'w
     \<Rightarrow> string option \<times> string list \<times> 'w" where
  "Run_installComponents [] cluster cc stdout w = (None, stdout, w)"
| "Run_installComponents (component # rest) cluster cc stdout w =
     (let stdout1 = stdout @ [''Installing '' @ TsuruComponent.Name component @ [CHR 0x0A]]
      in case Install component cluster cc w of
           (Some errInstall, w') \<Rightarrow>
             (Some (''error installing '' @ TsuruComponent.Name component @ '': '' @ errInstall),
              stdout1, w')
         | (None, w') \<Rightarrow>
             Run_installComponents rest cluster cc
               (stdout1 @ [TsuruComponent.Name component @ '' successfully installed!'' @ [CHR 0x0A]])
               w')"

subsection \<open>addInstallHosts and the registration step of Install.Run\<close>

text \<open>The request handed to \<^verbatim>\<open>client.Do\<close>; \<open>Body\<close> is the \<^verbatim>\<open>url.Values\<close> before encoding.\<close>

record request =
  Method :: string
  URL :: string
  Header :: "(string \<times> string) list"
  Body :: "(string \<times> string) list"

text \<open>
  What \<^verbatim>\<open>addInstallHosts\<close> uses from libraries: \<^verbatim>\<open>cmd.GetURLVersion\<close>,
  \<^verbatim>\<open>json.Marshal\<close> on a driver descriptor, \<^verbatim>\<open>ioutil.ReadFile\<close> (the bytes read and the
  error, if any), \<^verbatim>\<open>filepath.Join\<close>, and the error \<^verbatim>\<open>http.NewRequest\<close> reports for a
  method and URL, if any.
\<close>

record 'd hosts_env =
  GetURLVersion :: "string \<Rightarrow> string \<Rightarrow> string + string"
  Marshal :: "'d \<Rightarrow> string + string"
  ReadFile :: "string \<Rightarrow> string \<times> string option"
  Join :: "string \<Rightarrow> string \<Rightarrow> string"
  NewRequest_error :: "string \<Rightarrow> string \<Rightarrow> string option"

text \<open>\<^verbatim>\<open>client.Do\<close>: the error text, if any, and the changed platform \<open>'w\<close>.\<close>

type_synonym 'w client = "request \<Rightarrow> 'w \<Rightarrow> string option \<times> 'w"

text \<open>
  \<^verbatim>\<open>data, err := ioutil.ReadFile(path); if err != nil { fmt.Printf(msg, err) }\<close>: the read
  is best effort, a failure is printed to the standard output (\<open>stdout\<close> collects the
  lines) and the bytes read so far are used.
\<close>

definition read_or_print :: "'d hosts_env \<Rightarrow> string \<Rightarrow> string \<Rightarrow> string list \<Rightarrow> string \<times> string list" where
  "read_or_print env path msg stdout =
     (case ReadFile env path of
        (data, Some err) \<Rightarrow> (data, stdout @ [msg @ err])
      | (data, None) \<Rightarrow> (data, stdout))"

text \<open>
  The body of the loop up to \<^verbatim>\<open>http.NewRequest\<close> (lines 223 to 251): the request built
  for machine \<open>m\<close>, or the error that ends the function, and the output so far.
\<close>

definition addInstallHosts_request ::
  "'d hosts_env \<Rightarrow> string \<Rightarrow> 'd Machine \<Rightarrow> string list \<Rightarrow> (string + request) \<times> string list" where
  "addInstallHosts_request env path m stdout =
     (case Marshal env (Driver m) of
        Inl err \<Rightarrow> (Inl err, stdout)
      | Inr rawDriver \<Rightarrow>
          (case read_or_print env (SSHKeyPath m)
                  ''failed to read private ssh key file: '' stdout of
             (privateKey, stdout1) \<Rightarrow>
          (case read_or_print env (Join env (Machine.CAPath m) ''ca.pem'')
                  ''failed to read ca file: '' stdout1 of
             (caCert, stdout2) \<Rightarrow>
          (case read_or_print env (Join env (Machine.CAPath m) ''ca-key.pem'')
                  ''failed to read ca private key file: '' stdout2 of
             (caPrivateKey, stdout3) \<Rightarrow>
          (let v = [(''driver'', rawDriver), (''name'', Machine.Name m),
                    (''driverName'', Machine.DriverName m), (''sshPrivateKey'', privateKey),
                    (''caCert'', caCert), (''caPrivateKey'', caPrivateKey)]
           in case NewRequest_error env ''POST'' path of
                Some err \<Rightarrow> (Inl err, stdout3)
              | None \<Rightarrow>
                  (Inr \<lparr>Method = ''POST'', URL = path,
                        Header = [(''Content-Type'', ''application/x-www-form-urlencoded'')],
                        Body = v\<rparr>, stdout3))))))"

text \<open>The loop \<^verbatim>\<open>for _, m := range machines\<close>: build the request, send it, stop at the
  first error.\<close>

fun addInstallHosts_loop ::
  "'d hosts_env \<Rightarrow> 'w client \<Rightarrow> string \<Rightarrow> 'd Machine list \<Rightarrow> string list \<Rightarrow> 'w
     \<Rightarrow> string option \<times> string list \<times> 'w" where
  "addInstallHosts_loop env do path [] stdout w = (None, stdout, w)"
| "addInstallHosts_loop env do path (m # machines) stdout w =
     (case addInstallHosts_request env path m stdout of
        (Inl err, stdout') \<Rightarrow> (Some err, stdout', w)
      | (Inr request, stdout') \<Rightarrow>
          (case do request w of
             (Some err, w') \<Rightarrow> (Some err, stdout', w')
           | (None, w') \<Rightarrow> addInstallHosts_loop env do path machines stdout' w'))"

definition addInstallHosts ::
  "'d hosts_env \<Rightarrow> 'w client \<Rightarrow> 'd Machine list \<Rightarrow> string list \<Rightarrow> 'w
     \<Rightarrow> string option \<times> string list \<times> 'w" where
  "addInstallHosts env do machines stdout w =
     (case GetURLVersion env ''1.3'' ''/install/hosts'' of
        Inl err \<Rightarrow> (Some err, stdout, w)
      | Inr path \<Rightarrow> addInstallHosts_loop env do path machines stdout w)"

text \<open>
  Lines 201 to 214 of \<^verbatim>\<open>Run\<close>. \<open>machineIndex\<close> is the map from name to machine;
  \<open>range_order\<close> is the order in which \<^verbatim>\<open>range machineIndex\<close> hands out the values,
  which Go leaves open: any rearrangement of the values.
\<close>

definition Run_machineIndex :: "'d Machine list \<Rightarrow> (string \<times> 'd Machine) list" where
  "Run_machineIndex allMachines =
     foldl (\<lambda>machineIndex m. AList.update (Machine.Name m) m machineIndex) [] allMachines"

definition Run_registerHosts ::
  "'d hosts_env \<Rightarrow> ('d Machine list \<Rightarrow> 'd Machine list) \<Rightarrow> 'w client
     \<Rightarrow> 'd Machine list \<Rightarrow> 'd Machine list \<Rightarrow> string list \<Rightarrow> 'w
     \<Rightarrow> string option \<times> string list \<times> 'w" where
  "Run_registerHosts env range_order do coreMachines appsMachines stdout w =
     (let machineIndex = Run_machineIndex (coreMachines @ appsMachines);
          uniqueMachines = range_order (map snd machineIndex)
      in case addInstallHosts env do uniqueMachines stdout w of
           (Some err, stdout', w') \<Rightarrow> (Some (''failed to register hosts: '' @ err), stdout', w')
         | (None, stdout', w') \<Rightarrow> (None, stdout', w'))"

subsection \<open>parseConfigFile\<close>

text \<open>
  The configuration library \<^verbatim>\<open>github.com/tsuru/config\<close> after a successful
  \<^verbatim>\<open>ReadConfigFile\<close>: what each getter answers for a key. \<open>None\<close> is a non-nil error
  (key absent or of the wrong type); \<^verbatim>\<open>Get\<close> answers \<open>VNil\<close> for an absent key, its
  error being discarded by the caller.
\<close>

record ConfigData =
  GetString :: "string \<Rightarrow> string option"
  GetInt :: "string \<Rightarrow> int option"
  GetBool :: "string \<Rightarrow> bool option"
  Get :: "string \<Rightarrow> val"

text \<open>
  What \<^verbatim>\<open>parseConfigFile\<close> and the package-level default use from outside
  \<^verbatim>\<open>install.go\<close>: the value of \<^verbatim>\<open>dm.DefaultDockerMachineConfig\<close> at start-up, the
  constructor \<^verbatim>\<open>NewInstallConfig\<close> (a function of the name it is given),
  \<^verbatim>\<open>config.ReadConfigFile\<close> (an error text or the loaded configuration) and the rendering
  of a value in an error text.
\<close>

record 'c config_env =
  DefaultDockerMachineConfig :: DockerMachineConfig
  NewInstallConfig :: "string \<Rightarrow> 'c"
  ReadConfigFile :: "string \<Rightarrow> string + ConfigData"
  Sprintf_v :: "val \<Rightarrow> string"

text \<open>The initial value of the package-level variable \<^verbatim>\<open>defaultTsuruInstallConfig\<close>.\<close>

definition defaultTsuruInstallConfig :: "'c config_env \<Rightarrow> 'c TsuruInstallConfig" where
  "defaultTsuruInstallConfig env =
     \<lparr>DockerMachineConfig = DefaultDockerMachineConfig env,
      ComponentsConfig =
        NewInstallConfig env (DockerMachineConfig.Name (DefaultDockerMachineConfig env)),
      CoreHosts = 1,
      CoreDriversOpts = Some [],
      AppsHosts = 1,
      DedicatedAppsHosts = False,
      AppsDriversOpts = []\<rparr>"

text \<open>
  \<^verbatim>\<open>x, err := config.GetT(key); if err == nil { installConfig.F = x }\<close>: a field is
  overwritten only when the getter succeeds.
\<close>

definition overlay :: "'a option \<Rightarrow> ('a \<Rightarrow> 'g \<Rightarrow> 'g) \<Rightarrow> 'g \<Rightarrow> 'g" where
  "overlay r assign g = (case r of Some x \<Rightarrow> assign x g | None \<Rightarrow> g)"

definition set_DriverName :: "string \<Rightarrow> 'c TsuruInstallConfig \<Rightarrow> 'c TsuruInstallConfig" where
  "set_DriverName x g =
     g\<lparr>DockerMachineConfig := (DockerMachineConfig g)\<lparr>DockerMachineConfig.DriverName := x\<rparr>\<rparr>"

definition set_Name :: "string \<Rightarrow> 'c TsuruInstallConfig \<Rightarrow> 'c TsuruInstallConfig" where
  "set_Name x g =
     g\<lparr>DockerMachineConfig := (DockerMachineConfig g)\<lparr>DockerMachineConfig.Name := x\<rparr>\<rparr>"

definition set_DockerHubMirror :: "string \<Rightarrow> 'c TsuruInstallConfig \<Rightarrow> 'c TsuruInstallConfig" where
  "set_DockerHubMirror x g =
     g\<lparr>DockerMachineConfig := (DockerMachineConfig g)\<lparr>DockerHubMirror := x\<rparr>\<rparr>"

definition set_DriverOpts :: "DriverOpts \<Rightarrow> 'c TsuruInstallConfig \<Rightarrow> 'c TsuruInstallConfig" where
  "set_DriverOpts x g =
     g\<lparr>DockerMachineConfig := (DockerMachineConfig g)\<lparr>DriverOpts := x\<rparr>\<rparr>"

definition set_CAPath :: "string \<Rightarrow> 'c TsuruInstallConfig \<Rightarrow> 'c TsuruInstallConfig" where
  "set_CAPath x g =
     g\<lparr>DockerMachineConfig := (DockerMachineConfig g)\<lparr>DockerMachineConfig.CAPath := x\<rparr>\<rparr>"

text \<open>Lines 408 to 418: the loop over \<^verbatim>\<open>driver:options\<close> keeps the string keys.\<close>

fun parseConfigFile_driverOpts :: "(val \<times> val) list \<Rightarrow> DriverOpts \<Rightarrow> DriverOpts" where
  "parseConfigFile_driverOpts [] driverOpts = driverOpts"
| "parseConfigFile_driverOpts ((VString k, v) # rest) driverOpts =
     parseConfigFile_driverOpts rest (AList.update k v driverOpts)"
| "parseConfigFile_driverOpts (_ # rest) driverOpts = parseConfigFile_driverOpts rest driverOpts"

text \<open>
  The three blocks that can stop the function. Each gives the failure, if any, and the
  value of the shared configuration at that point. The type assertion
  \<^verbatim>\<open>opts.(map[interface{}]interface{})\<close> of the first block is unchecked and panics on
  any other value; the tuple assignment of the other two stores the nil map that
  \<^verbatim>\<open>parseDriverOptsSlice\<close> returns with its error, before the error is returned.
\<close>

definition parseConfigFile_driverOptions ::
  "ConfigData \<Rightarrow> 'c TsuruInstallConfig \<Rightarrow> failure option \<times> 'c TsuruInstallConfig" where
  "parseConfigFile_driverOptions cfg g =
     (let opts = Get cfg ''driver:options''
      in if opts \<noteq> VNil then
           (case opts of
              VMap entries \<Rightarrow> (None, set_DriverOpts (parseConfigFile_driverOpts entries []) g)
            | _ \<Rightarrow> (Some (Panic InterfaceConversion), g))
         else (None, g))"

definition parseConfigFile_coreOptions ::
  "'c config_env \<Rightarrow> ConfigData \<Rightarrow> 'c TsuruInstallConfig \<Rightarrow> failure option \<times> 'c TsuruInstallConfig" where
  "parseConfigFile_coreOptions env cfg g =
     (let opts = Get cfg ''hosts:core:driver:options''
      in if opts \<noteq> VNil then
           (case parseDriverOptsSlice (Sprintf_v env) opts of
              Inl err \<Rightarrow> (Some err, g\<lparr>CoreDriversOpts := None\<rparr>)
            | Inr parsed \<Rightarrow> (None, g\<lparr>CoreDriversOpts := Some parsed\<rparr>))
         else (None, g))"

definition parseConfigFile_appsOptions ::
  "'c config_env \<Rightarrow> ConfigData \<Rightarrow> 'c TsuruInstallConfig \<Rightarrow> failure option \<times> 'c TsuruInstallConfig" where
  "parseConfigFile_appsOptions env cfg g =
     (let opts = Get cfg ''hosts:apps:driver:options''
      in if opts \<noteq> VNil then
           (case parseDriverOptsSlice (Sprintf_v env) opts of
              Inl err \<Rightarrow> (Some err, g\<lparr>AppsDriversOpts := []\<rparr>)
            | Inr parsed \<Rightarrow> (None, g\<lparr>AppsDriversOpts := parsed\<rparr>))
         else (None, g))"

text \<open>
  \<^verbatim>\<open>parseConfigFile\<close>. The local \<^verbatim>\<open>installConfig\<close> is a copy of the pointer
  \<^verbatim>\<open>defaultTsuruInstallConfig\<close>, so every assignment goes to the one shared object: the
  function takes the current value \<open>g\<close> of that object and returns its new value next to
  the result, and the plan it returns is that object.
\<close>

definition parseConfigFile ::
  "'c config_env \<Rightarrow> string \<Rightarrow> 'c TsuruInstallConfig
     \<Rightarrow> (failure + 'c TsuruInstallConfig) \<times> 'c TsuruInstallConfig" where
  "parseConfigFile env file g =
     (if file = [] then (Inr g, g)
      else case ReadConfigFile env file of
        Inl err \<Rightarrow> (Inl (Error err), g)
      | Inr cfg \<Rightarrow>
          (let g1 = overlay (GetString cfg ''driver:name'') set_DriverName g;
               g2 = overlay (GetString cfg ''name'') set_Name g1;
               g3 = overlay (GetString cfg ''docker-hub-mirror'') set_DockerHubMirror g2
           in case parseConfigFile_driverOptions cfg g3 of
                (Some e, g4) \<Rightarrow> (Inl e, g4)
              | (None, g4) \<Rightarrow>
          (let g5 = overlay (GetString cfg ''ca-path'') set_CAPath g4;
               g6 = overlay (GetInt cfg ''hosts:core:size'') (\<lambda>x g. g\<lparr>CoreHosts := x\<rparr>) g5;
               g7 = overlay (GetInt cfg ''hosts:apps:size'') (\<lambda>x g. g\<lparr>AppsHosts := x\<rparr>) g6;
               g8 = overlay (GetBool cfg ''hosts:apps:dedicated'')
                      (\<lambda>x g. g\<lparr>DedicatedAppsHosts := x\<rparr>) g7
           in case parseConfigFile_coreOptions env cfg g8 of
                (Some e, g9) \<Rightarrow> (Inl e, g9)
              | (None, g9) \<Rightarrow>
          (case parseConfigFile_appsOptions env cfg g9 of
                (Some e, g10) \<Rightarrow> (Inl e, g10)
              | (None, g10) \<Rightarrow>
          (let g11 = g10\<lparr>ComponentsConfig :=
                       NewInstallConfig env (DockerMachineConfig.Name (DockerMachineConfig g10))\<rparr>
           in (Inr g11, g11))))))"

subsection \<open>Observing the calls on the provisioner\<close>

text \<open>
  A provisioner that also records every call made on it, with the options it received
  and the result it gave. Running the allocator on \<open>logged p\<close> shows which calls the
  allocator makes on \<open>p\<close>.
\<close>

type_synonym 'd call = "DriverOpts \<times> (string + 'd Machine)"

definition logged :: "('d, 's) MachineProvisioner \<Rightarrow> ('d, 's \<times> 'd call list) MachineProvisioner" where
  "logged p opts = (\<lambda>(s, log). case p opts s of (r, s') \<Rightarrow> (r, (s', log @ [(opts, r)])))"

text \<open>Two provisioners for concrete runs: one that always succeeds, one that fails at
  its \<open>k\<close>-th call (counting from 0). The state counts the calls.\<close>

definition machine_of :: "nat \<Rightarrow> DriverOpts \<Rightarrow> DriverOpts Machine" where
  "machine_of j opts =
     \<lparr>Machine.Name = replicate (Suc j) CHR ''m'', Machine.DriverName = ''fake'',
      Driver = opts, SSHKeyPath = ''id_rsa'', Machine.CAPath = ''certs'',
      PrivateAddress = replicate (Suc j) CHR ''1''\<rparr>"

definition fake_provisioner :: "(DriverOpts, nat) MachineProvisioner" where
  "fake_provisioner opts j = (Inr (machine_of j opts), Suc j)"

definition failing_provisioner :: "nat \<Rightarrow> (DriverOpts, nat) MachineProvisioner" where
  "failing_provisioner k opts j =
     (if j = k then (Inl ''quota exceeded'', Suc j) else (Inr (machine_of j opts), Suc j))"

text \<open>The option block of the scenario "4 machines, zone a or b".\<close>

definition zone_ab :: DriversOpts where
  "zone_ab = [(''zone'', [VString ''a'', VString ''b''])]"

text \<open>A plan and a core pool of three machines for concrete runs of the apps pool policy.\<close>

definition example_plan :: "int \<Rightarrow> bool \<Rightarrow> unit TsuruInstallConfig" where
  "example_plan appsHosts dedicated =
     \<lparr>DockerMachineConfig =
        \<lparr>DockerMachineConfig.DriverName = ''virtualbox'', DriverOpts = [],
         DockerMachineConfig.CAPath = '''', DockerMachineConfig.Name = ''tsuru'',
         DockerHubMirror = ''''\<rparr>,
      ComponentsConfig = (), CoreHosts = 3, CoreDriversOpts = Some [],
      AppsHosts = appsHosts, DedicatedAppsHosts = dedicated, AppsDriversOpts = zone_ab\<rparr>"

definition core3 :: "DriverOpts Machine list" where
  "core3 = [machine_of 10 [], machine_of 11 [], machine_of 12 []]"

subsection \<open>Observing the calls on the components\<close>

text \<open>A component that also records every \<^verbatim>\<open>Install\<close> call made on it: its name, the
  cluster handle and settings it received, and its result.\<close>

type_synonym ('cl, 'cc) install_call = "string \<times> 'cl \<times> 'cc \<times> string option"

definition logged_component ::
  "('cl, 'cc, 'w) TsuruComponent \<Rightarrow> ('cl, 'cc, 'w \<times> ('cl, 'cc) install_call list) TsuruComponent" where
  "logged_component c =
     \<lparr>TsuruComponent.Name = TsuruComponent.Name c,
      Install = (\<lambda>cluster cc (w, log).
        case Install c cluster cc w of
          (r, w') \<Rightarrow> (r, (w', log @ [(TsuruComponent.Name c, cluster, cc, r)])))\<rparr>"

text \<open>
  A catalog for a concrete run: \<open>A\<close> and \<open>C\<close> install (the world lists what is installed),
  \<open>B\<close> fails.
\<close>

definition ok_component :: "string \<Rightarrow> (string, string, string list) TsuruComponent" where
  "ok_component name =
     \<lparr>TsuruComponent.Name = name, Install = (\<lambda>cluster cc w. (None, w @ [name]))\<rparr>"

definition failing_component :: "string \<Rightarrow> (string, string, string list) TsuruComponent" where
  "failing_component name =
     \<lparr>TsuruComponent.Name = name, Install = (\<lambda>cluster cc w. (Some ''image not found'', w))\<rparr>"

definition catalog_ABC :: "(string, string, string list) TsuruComponent list" where
  "catalog_ABC = [ok_component ''A'', failing_component ''B'', ok_component ''C'']"

subsection \<open>Observing the requests sent to the platform\<close>

text \<open>A client that also records every request handed to it.\<close>

definition logged_client :: "'w client \<Rightarrow> ('w \<times> request list) client" where
  "logged_client do request =
     (\<lambda>(w, log). case do request w of (r, w') \<Rightarrow> (r, (w', log @ [request])))"

text \<open>The last machine of a list that has the given name.\<close>

definition last_named :: "'d Machine list \<Rightarrow> string \<Rightarrow> 'd Machine option" where
  "last_named machines n = find (\<lambda>m. Machine.Name m = n) (rev machines)"

text \<open>The requests of a record that register the given name.\<close>

definition requests_for :: "string \<Rightarrow> request list \<Rightarrow> request list" where
  "requests_for n log = filter (\<lambda>req. map_of (Body req) ''name'' = Some n) log"

text \<open>
  A concrete registration: libraries that never fail, a client that accepts every
  request and counts them, and two machines with the same name and different
  descriptors, one in each pool.
\<close>

definition fake_hosts_env :: "string hosts_env" where
  "fake_hosts_env =
     \<lparr>GetURLVersion = (\<lambda>version path. Inr (''http://tsuru/'' @ version @ path)),
      Marshal = (\<lambda>d. Inr d),
      ReadFile = (\<lambda>path. (''contents of '' @ path, None)),
      Join = (\<lambda>dir file. dir @ ''/'' @ file),
      NewRequest_error = (\<lambda>method url. None)\<rparr>"

definition fake_client :: "nat client" where
  "fake_client request w = (None, Suc w)"

definition twin :: "string \<Rightarrow> string Machine" where
  "twin descriptor =
     \<lparr>Machine.Name = ''host-1'', Machine.DriverName = ''fake'', Driver = descriptor,
      SSHKeyPath = ''id_rsa'', Machine.CAPath = ''certs'', PrivateAddress = ''10.0.0.1''\<rparr>"

subsection \<open>The open-port option of Install.Run\<close>

text \<open>
  Line 144 of \<^verbatim>\<open>Run\<close>:
  \<^verbatim>\<open>config.CoreDriversOpts[config.DriverName+"-open-port"] = []interface{}{port}\<close>, where
  \<open>port\<close> is \<^verbatim>\<open>strconv.Itoa(defaultTsuruAPIPort)\<close>, a constant declared in another file.
  \<^verbatim>\<open>config\<close> is the pointer \<^verbatim>\<open>parseConfigFile\<close> returned, so the assignment goes to the
  shared configuration. On a nil map the assignment panics.
\<close>

definition Run_openPort :: "string \<Rightarrow> 'c TsuruInstallConfig \<Rightarrow> failure + 'c TsuruInstallConfig" where
  "Run_openPort port config =
     (case CoreDriversOpts config of
        None \<Rightarrow> Inl (Panic AssignToNilMap)
      | Some entries \<Rightarrow>
          Inr (config\<lparr>CoreDriversOpts :=
                 Some (AList.update
                   (DockerMachineConfig.DriverName (DockerMachineConfig config) @ ''-open-port'')
                   [VString port] entries)\<rparr>))"

subsection \<open>Configuration documents for concrete runs\<close>

text \<open>
  What the getters answer, on the keys \<^verbatim>\<open>parseConfigFile\<close> reads, for a document that holds
  the key \<^verbatim>\<open>hosts:core:size\<close> with value \<open>n\<close> and nothing else.
\<close>

definition only_core_size :: "ConfigData \<Rightarrow> int \<Rightarrow> bool" where
  "only_core_size cfg n \<longleftrightarrow>
     GetInt cfg ''hosts:core:size'' = Some n
   \<and> GetString cfg ''driver:name'' = None
   \<and> GetString cfg ''name'' = None
   \<and> GetString cfg ''docker-hub-mirror'' = None
   \<and> Get cfg ''driver:options'' = VNil
   \<and> GetString cfg ''ca-path'' = None
   \<and> GetInt cfg ''hosts:apps:size'' = None
   \<and> GetBool cfg ''hosts:apps:dedicated'' = None
   \<and> Get cfg ''hosts:core:driver:options'' = VNil
   \<and> Get cfg ''hosts:apps:driver:options'' = VNil"


text \<open>Such a document, and an environment in which the file \<^verbatim>\<open>core3.yml\<close> holds it.\<close>

definition core_size_document :: "int \<Rightarrow> ConfigData" where
  "core_size_document n =
     \<lparr>GetString = (\<lambda>key. None),
      GetInt = (\<lambda>key. if key = ''hosts:core:size'' then Some n else None),
      GetBool = (\<lambda>key. None),
      Get = (\<lambda>key. VNil)\<rparr>"

definition fake_config_env :: "string config_env" where
  "fake_config_env =
     \<lparr>DefaultDockerMachineConfig =
        \<lparr>DockerMachineConfig.DriverName = ''virtualbox'', DriverOpts = [],
         DockerMachineConfig.CAPath = '''', DockerMachineConfig.Name = ''tsuru'',
         DockerHubMirror = ''''\<rparr>,
      NewInstallConfig = (\<lambda>targetName. ''components for '' @ targetName),
      ReadConfigFile = (\<lambda>file. if file = ''core3.yml'' then Inr (core_size_document 3)
                                else Inl ''no such file''),
      Sprintf_v = (\<lambda>v. ''?'')\<rparr>"

text \<open>
  What the getters answer, on the keys \<^verbatim>\<open>parseConfigFile\<close> reads, for a document that sets
  the driver name, the installation name, both host counts and the dedicated flag; an
  environment in which \<^verbatim>\<open>ec2.yml\<close> holds it and \<^verbatim>\<open>core3.yml\<close> holds the document above;
  and the plan the resolver makes of \<^verbatim>\<open>ec2.yml\<close>.
\<close>

definition ec2_document :: ConfigData where
  "ec2_document =
     \<lparr>GetString = (\<lambda>key. if key = ''driver:name'' then Some ''amazonec2''
                          else if key = ''name'' then Some ''tsuru-ec2'' else None),
      GetInt = (\<lambda>key. if key = ''hosts:core:size'' then Some 2
                       else if key = ''hosts:apps:size'' then Some 4 else None),
      GetBool = (\<lambda>key. if key = ''hosts:apps:dedicated'' then Some True else None),
      Get = (\<lambda>key. VNil)\<rparr>"

definition two_files_env :: "string config_env" where
  "two_files_env =
     \<lparr>DefaultDockerMachineConfig =
        \<lparr>DockerMachineConfig.DriverName = ''virtualbox'', DriverOpts = [],
         DockerMachineConfig.CAPath = '''', DockerMachineConfig.Name = ''tsuru'',
         DockerHubMirror = ''''\<rparr>,
      NewInstallConfig = (\<lambda>targetName. ''components for '' @ targetName),
      ReadConfigFile = (\<lambda>file. if file = ''ec2.yml'' then Inr ec2_document
                                else if file = ''core3.yml'' then Inr (core_size_document 3)
                                else Inl ''no such file''),
      Sprintf_v = (\<lambda>v. ''?'')\<rparr>"

definition ec2_plan :: "string TsuruInstallConfig" where
  "ec2_plan =
     \<lparr>DockerMachineConfig =
        \<lparr>DockerMachineConfig.DriverName = ''amazonec2'', DriverOpts = [],
         DockerMachineConfig.CAPath = '''', DockerMachineConfig.Name = ''tsuru-ec2'',
         DockerHubMirror = ''''\<rparr>,
      ComponentsConfig = ''components for tsuru-ec2'',
      CoreHosts = 2, CoreDriversOpts = Some [],
      AppsHosts = 4, DedicatedAppsHosts = True, AppsDriversOpts = []\<rparr>"

section \<open>Properties\<close>

subsection \<open>The allocator loop\<close>

lemma loop_done: "\<not> int i < n \<Longrightarrow> ProvisionMachines_loop p n configs i ms s = (Inr ms, s)"
  by (simp add: ProvisionMachines_loop.simps)

lemma loop_panic:
  "int i < n \<Longrightarrow> ProvisionMachines_opts i configs [] = Inl e \<Longrightarrow>
   ProvisionMachines_loop p n configs i ms s = (Inl e, s)"
  by (simp add: ProvisionMachines_loop.simps)

lemma loop_fail:
  "int i < n \<Longrightarrow> ProvisionMachines_opts i configs [] = Inr opts \<Longrightarrow> p opts s = (Inl err, s') \<Longrightarrow>
   ProvisionMachines_loop p n configs i ms s =
     (Inl (Error (''failed to provision machines: '' @ err)), s')"
  by (simp add: ProvisionMachines_loop.simps)

lemma loop_step:
  "int i < n \<Longrightarrow> ProvisionMachines_opts i configs [] = Inr opts \<Longrightarrow> p opts s = (Inr m, s') \<Longrightarrow>
   ProvisionMachines_loop p n configs i ms s =
     ProvisionMachines_loop p n configs (Suc i) (ms @ [m]) s'"
  by (simp add: ProvisionMachines_loop.simps)

text \<open>The inner loop fails exactly when some candidate list is empty, whatever the index.\<close>

lemma opts_panic_iff:
  "ProvisionMachines_opts i configs opts = Inl e \<longleftrightarrow>
     (e = Panic DivideByZero \<and> [] \<in> snd ` set configs)"
  by (induction configs arbitrary: opts) (force simp: Let_def split: if_splits)+

lemma opts_ok:
  "[] \<notin> snd ` set configs \<Longrightarrow>
   ProvisionMachines_opts i configs opts =
     Inr (foldl (\<lambda>acc kv. AList.update (fst kv) (snd kv ! (i mod length (snd kv))) acc)
            opts configs)"
  by (induction configs arbitrary: opts) (auto simp: Let_def)

lemma map_of_foldl_update:
  "distinct (map fst configs) \<Longrightarrow>
   map_of (foldl (\<lambda>acc kv. AList.update (fst kv) (f kv) acc) opts configs) k =
     (case map_of configs k of None \<Rightarrow> map_of opts k | Some v \<Rightarrow> Some (f (k, v)))"
  by (induction configs arbitrary: opts)
     (force simp: update_conv' map_of_eq_None_iff split: option.splits)+

lemma logged_simp:
  "logged p opts (s, log) = (case p opts s of (r, s') \<Rightarrow> (r, (s', log @ [(opts, r)])))"
  by (simp add: logged_def)

text \<open>
  The run of the loop on a recording provisioner, from index \<open>i\<close>: the calls it adds to
  the record are for the indices \<open>i, i + 1, \<dots>\<close> in this order, each with the option set of
  its index; the infrastructure ends in the state these calls leave; the three outcomes
  are told apart by the record.
\<close>

lemma loop_logged:
  "ProvisionMachines_loop (logged p) n configs i ms (s, log) = (r, (s', log')) \<Longrightarrow>
   \<exists>new. log' = log @ new
     \<and> (\<forall>j < length new. ProvisionMachines_opts (i + j) configs [] = Inr (fst (new ! j)))
     \<and> s' = foldl (\<lambda>s opts. snd (p opts s)) s (map fst new)
     \<and> (\<forall>ms'. r = Inr ms' \<longrightarrow>
          (\<exists>fresh. ms' = ms @ fresh \<and> map snd new = map Inr fresh \<and> length fresh = nat (n - int i)))
     \<and> (\<forall>msg. r = Inl (Error msg) \<longrightarrow>
          (\<exists>fresh e. map snd new = map Inr fresh @ [Inl e]
             \<and> msg = ''failed to provision machines: '' @ e \<and> int (i + length fresh) < n))
     \<and> (\<forall>pk. r = Inl (Panic pk) \<longrightarrow>
          pk = DivideByZero \<and> [] \<in> snd ` set configs \<and> new = [] \<and> int i < n)"
proof (induction "nat (n - int i)" arbitrary: i ms s log)
  case 0
  then have "\<not> int i < n" by simp
  with 0 show ?case by (auto simp: loop_done)
next
  case (Suc k)
  then have lt: "int i < n" by linarith
  show ?case
  proof (cases "ProvisionMachines_opts i configs []")
    case (Inl e)
    with lt Suc.prems show ?thesis
      by (auto simp: loop_panic opts_panic_iff)
  next
    case (Inr opts)
    obtain res s1 where p: "p opts s = (res, s1)" by (cases "p opts s")
    then have lp: "logged p opts (s, log) = (res, (s1, log @ [(opts, res)]))"
      by (simp add: logged_simp)
    show ?thesis
    proof (cases res)
      case (Inl err)
      with lt Inr lp Suc.prems
      have "r = Inl (Error (''failed to provision machines: '' @ err))" "s' = s1"
           "log' = log @ [(opts, Inl err)]"
        by (simp_all add: loop_fail)
      with Inr p Inl lt show ?thesis
        by (intro exI[of _ "[(opts, Inl err)]"]) (auto intro: exI[of _ "[]"])
    next
      case (Inr m)
      with lt \<open>ProvisionMachines_opts i configs [] = Inr opts\<close> lp Suc.prems
      have rec: "ProvisionMachines_loop (logged p) n configs (Suc i) (ms @ [m]) (s1, log @ [(opts, Inr m)])
                  = (r, (s', log'))"
        by (simp add: loop_step)
      from Suc.hyps(2) have k: "k = nat (n - int (Suc i))" by simp
      from Suc.hyps(1)[OF k rec] obtain new where
        new: "log' = (log @ [(opts, Inr m)]) @ new"
          "\<forall>j < length new. ProvisionMachines_opts (Suc i + j) configs [] = Inr (fst (new ! j))"
          "s' = foldl (\<lambda>s opts. snd (p opts s)) s1 (map fst new)"
          "\<forall>ms'. r = Inr ms' \<longrightarrow>
            (\<exists>fresh. ms' = (ms @ [m]) @ fresh \<and> map snd new = map Inr fresh \<and> length fresh = nat (n - int (Suc i)))"
          "\<forall>msg. r = Inl (Error msg) \<longrightarrow>
            (\<exists>fresh e. map snd new = map Inr fresh @ [Inl e]
               \<and> msg = ''failed to provision machines: '' @ e \<and> int (Suc i + length fresh) < n)"
          "\<forall>pk. r = Inl (Panic pk) \<longrightarrow>
            pk = DivideByZero \<and> [] \<in> snd ` set configs \<and> new = [] \<and> int (Suc i) < n"
        by blast
      have nopanic: "[] \<notin> snd ` set configs"
        using \<open>ProvisionMachines_opts i configs [] = Inr opts\<close> opts_panic_iff[of i configs "[]" "Panic DivideByZero"]
        by auto
      let ?new = "(opts, Inr m) # new"
      have 1: "log' = log @ ?new" using new(1) by simp
      have 2: "\<forall>j < length ?new. ProvisionMachines_opts (i + j) configs [] = Inr (fst (?new ! j))"
      proof (intro allI impI)
        fix j assume "j < length ?new"
        then show "ProvisionMachines_opts (i + j) configs [] = Inr (fst (?new ! j))"
          using new(2) \<open>ProvisionMachines_opts i configs [] = Inr opts\<close>
          by (cases j) auto
      qed
      have 3: "s' = foldl (\<lambda>s opts. snd (p opts s)) s (map fst ?new)"
        using new(3) p by simp
      have 4: "\<forall>ms'. r = Inr ms' \<longrightarrow>
          (\<exists>fresh. ms' = ms @ fresh \<and> map snd ?new = map Inr fresh \<and> length fresh = nat (n - int i))"
      proof (intro allI impI)
        fix ms' assume "r = Inr ms'"
        with new(4) obtain fresh where "ms' = (ms @ [m]) @ fresh" "map snd new = map Inr fresh"
          "length fresh = nat (n - int (Suc i))" by blast
        with lt show "\<exists>fresh. ms' = ms @ fresh \<and> map snd ?new = map Inr fresh \<and> length fresh = nat (n - int i)"
          by (intro exI[of _ "m # fresh"]) auto
      qed
      have 5: "\<forall>msg. r = Inl (Error msg) \<longrightarrow>
          (\<exists>fresh e. map snd ?new = map Inr fresh @ [Inl e]
             \<and> msg = ''failed to provision machines: '' @ e \<and> int (i + length fresh) < n)"
      proof (intro allI impI)
        fix msg assume "r = Inl (Error msg)"
        with new(5) obtain fresh e where "map snd new = map Inr fresh @ [Inl e]"
          "msg = ''failed to provision machines: '' @ e" "int (Suc i + length fresh) < n" by blast
        then show "\<exists>fresh e. map snd ?new = map Inr fresh @ [Inl e]
             \<and> msg = ''failed to provision machines: '' @ e \<and> int (i + length fresh) < n"
          by (intro exI[of _ "m # fresh"] exI[of _ e]) auto
      qed
      have 6: "\<forall>pk. r = Inl (Panic pk) \<longrightarrow>
          pk = DivideByZero \<and> [] \<in> snd ` set configs \<and> ?new = [] \<and> int i < n"
        using new(6) nopanic by blast
      from 1 2 3 4 5 6 show ?thesis by blast
    qed
  qed
qed


lemma loop_logged_plain:
  "ProvisionMachines_loop (logged p) n configs i ms (s, log) = (r, (s', log')) \<Longrightarrow>
   ProvisionMachines_loop p n configs i ms s = (r, s')"
proof (induction "nat (n - int i)" arbitrary: i ms s log)
  case 0
  then have "\<not> int i < n" by simp
  with 0 show ?case by (auto simp: loop_done)
next
  case (Suc k)
  then have lt: "int i < n" by linarith
  show ?case
  proof (cases "ProvisionMachines_opts i configs []")
    case (Inl e)
    with lt Suc.prems show ?thesis by (auto simp: loop_panic)
  next
    case (Inr opts)
    obtain res s1 where p: "p opts s = (res, s1)" by (cases "p opts s")
    then have lp: "logged p opts (s, log) = (res, (s1, log @ [(opts, res)]))"
      by (simp add: logged_simp)
    show ?thesis
    proof (cases res)
      case (Inl err)
      with lt Inr lp p Suc.prems show ?thesis by (simp add: loop_fail)
    next
      case (Inr m)
      with lt \<open>ProvisionMachines_opts i configs [] = Inr opts\<close> lp Suc.prems
      have rec: "ProvisionMachines_loop (logged p) n configs (Suc i) (ms @ [m]) (s1, log @ [(opts, Inr m)])
                  = (r, (s', log'))"
        by (simp add: loop_step)
      from Suc.hyps(2) have k: "k = nat (n - int (Suc i))" by simp
      from Suc.hyps(1)[OF k rec] lt \<open>ProvisionMachines_opts i configs [] = Inr opts\<close> p Inr
      show ?thesis by (simp add: loop_step)
    qed
  qed
qed

text \<open>The recording changes neither the result nor the state of the infrastructure.\<close>

lemma ProvisionMachines_plain:
  "ProvisionMachines (logged p) n configs (s, log) = (r, (s', log')) \<Longrightarrow>
   ProvisionMachines p n configs s = (r, s')"
  unfolding ProvisionMachines_def by (rule loop_logged_plain)

lemma opts_select:
  assumes "[] \<notin> snd ` set configs" "distinct (map fst configs)"
    and "ProvisionMachines_opts i configs [] = Inr opts"
  shows "map_of opts k = map_option (\<lambda>values. values ! (i mod length values)) (map_of configs k)"
  using assms by (auto simp: opts_ok map_of_foldl_update split: option.splits)

lemma ProvisionMachines_logged:
  assumes "ProvisionMachines (logged p) n configs (s, []) = (r, (s', log))"
  shows "(\<forall>j < length log. ProvisionMachines_opts j configs [] = Inr (fst (log ! j)))"
    and "s' = foldl (\<lambda>s opts. snd (p opts s)) s (map fst log)"
    and "\<And>ms. r = Inr ms \<Longrightarrow> map snd log = map Inr ms \<and> length ms = nat n"
    and "\<And>msg. r = Inl (Error msg) \<Longrightarrow>
          \<exists>fresh e. map snd log = map Inr fresh @ [Inl e]
             \<and> msg = ''failed to provision machines: '' @ e \<and> int (length fresh) < n"
    and "\<And>pk. r = Inl (Panic pk) \<Longrightarrow> pk = DivideByZero \<and> [] \<in> snd ` set configs \<and> log = [] \<and> 0 < n"
  using loop_logged[of p n configs 0 "[]" s "[]" r s' log] assms
  by (auto simp: ProvisionMachines_def)


lemma ProvisionMachines_logged_length:
  assumes "ProvisionMachines (logged p) n configs (s, []) = (r, (s', log))"
  shows "length log \<le> nat n" and "(\<exists>ms. r = Inr ms) \<Longrightarrow> length log = nat n"
proof -
  show "length log \<le> nat n"
  proof (cases r)
    case (Inr ms)
    from ProvisionMachines_logged(3)[OF assms Inr] have "length (map snd log) = length (map Inr ms :: (string + 'a Machine) list)" "length ms = nat n"
      by simp_all
    then show ?thesis by simp
  next
    case (Inl e)
    show ?thesis
    proof (cases e)
      case (Error msg)
      with Inl ProvisionMachines_logged(4)[OF assms] obtain fresh err where
        f: "map snd log = map Inr fresh @ [Inl err]" "int (length fresh) < n" by blast
      from f(1) have "length (map snd log) = length (map Inr fresh @ [Inl err] :: (string + 'a Machine) list)" by simp
      with f(2) show ?thesis by simp
    next
      case (Panic pk)
      with Inl ProvisionMachines_logged(5)[OF assms] show ?thesis by simp
    qed
  qed
  show "(\<exists>ms. r = Inr ms) \<Longrightarrow> length log = nat n"
  proof -
    assume "\<exists>ms. r = Inr ms"
    then obtain ms where ms: "r = Inr ms" by blast
    from ProvisionMachines_logged(3)[OF assms ms] have "length (map snd log) = length (map Inr ms :: (string + 'a Machine) list)" "length ms = nat n"
      by simp_all
    then show ?thesis by simp
  qed
qed

subsection \<open>Round-robin selection of the option values\<close>

text \<open>
  C1. For a positive machine count and an options map whose value lists are all
  non-empty, the option set built for machine index \<open>i\<close> maps every option key to the
  value at position \<open>i mod len(values)\<close> of its list and has no other key. This holds
  for the set the allocator computes for every index below the count, and for the set
  the provisioner receives in its call number \<open>i\<close> (the allocator makes at most
  \<open>numMachines\<close> calls, and exactly that many when it succeeds). With a single key and a
  list of length \<open>L\<close> the set is that key with the value at \<open>i mod L\<close>. The keys of a Go
  map are distinct.
\<close>

theorem ProvisionMachines_selects_round_robin:
  assumes "0 < numMachines" and "[] \<notin> snd ` set configs" and "distinct (map fst configs)"
  shows "(\<forall>i. int i < numMachines \<longrightarrow>
            (\<exists>opts. ProvisionMachines_opts i configs [] = Inr opts
               \<and> (\<forall>k. map_of opts k =
                       map_option (\<lambda>values. values ! (i mod length values)) (map_of configs k))))
       \<and> (\<forall>p s r s' log.
            ProvisionMachines (logged p) numMachines configs (s, []) = (r, (s', log)) \<longrightarrow>
              length log \<le> nat numMachines
            \<and> (\<forall>i < length log. \<forall>k. map_of (fst (log ! i)) k =
                       map_option (\<lambda>values. values ! (i mod length values)) (map_of configs k))
            \<and> ((\<exists>ms. r = Inr ms) \<longrightarrow> length log = nat numMachines))
       \<and> (\<forall>k values. configs = [(k, values)] \<longrightarrow>
            (\<forall>i. int i < numMachines \<longrightarrow>
               ProvisionMachines_opts i configs [] = Inr [(k, values ! (i mod length values))]))"
    (is "?A \<and> ?B \<and> ?C")
proof -
  have a: ?A
  proof (intro allI impI)
    fix i
    from assms(2) obtain opts where o: "ProvisionMachines_opts i configs [] = Inr opts"
      by (simp add: opts_ok)
    with opts_select[OF assms(2,3) o]
    show "\<exists>opts. ProvisionMachines_opts i configs [] = Inr opts
               \<and> (\<forall>k. map_of opts k =
                       map_option (\<lambda>values. values ! (i mod length values)) (map_of configs k))"
      by blast
  qed
  have b: ?B
  proof (intro allI impI)
    fix p s r s' log
    assume run: "ProvisionMachines (logged p) numMachines configs (s, []) = (r, (s', log))"
    have 1: "length log \<le> nat numMachines"
      by (rule ProvisionMachines_logged_length(1)[OF run])
    have 2: "\<forall>i < length log. \<forall>k. map_of (fst (log ! i)) k =
                       map_option (\<lambda>values. values ! (i mod length values)) (map_of configs k)"
    proof (intro allI impI)
      fix i k assume "i < length log"
      with ProvisionMachines_logged(1)[OF run]
      have "ProvisionMachines_opts i configs [] = Inr (fst (log ! i))" by blast
      from opts_select[OF assms(2,3) this]
      show "map_of (fst (log ! i)) k =
              map_option (\<lambda>values. values ! (i mod length values)) (map_of configs k)" .
    qed
    have 3: "(\<exists>ms. r = Inr ms) \<longrightarrow> length log = nat numMachines"
      using ProvisionMachines_logged_length(2)[OF run] by blast
    from 1 2 3 show "length log \<le> nat numMachines
            \<and> (\<forall>i < length log. \<forall>k. map_of (fst (log ! i)) k =
                       map_option (\<lambda>values. values ! (i mod length values)) (map_of configs k))
            \<and> ((\<exists>ms. r = Inr ms) \<longrightarrow> length log = nat numMachines)"
      by blast
  qed
  have c: ?C
    using assms(2) by (auto simp: Let_def)
  from a b c show ?thesis by blast
qed

theorem ProvisionMachines_selects_round_robin_witness:
  "(0::int) < 4 \<and> [] \<notin> snd ` set zone_ab \<and> distinct (map fst zone_ab)
   \<and> ProvisionMachines_opts 3 zone_ab [] = Inr [(''zone'', VString ''b'')]
   \<and> map fst (snd (snd (ProvisionMachines (logged fake_provisioner) 4 zone_ab (0, [])))) =
       [[(''zone'', VString ''a'')], [(''zone'', VString ''b'')],
        [(''zone'', VString ''a'')], [(''zone'', VString ''b'')]]"
proof -
  have h: "(0::int) < 4" "[] \<notin> snd ` set zone_ab" "distinct (map fst zone_ab)"
    by (simp_all add: zone_ab_def)
  have run: "map fst (snd (snd (ProvisionMachines (logged fake_provisioner) 4 zone_ab (0, [])))) =
       [[(''zone'', VString ''a'')], [(''zone'', VString ''b'')],
        [(''zone'', VString ''a'')], [(''zone'', VString ''b'')]]"
    by code_simp
  have idx: "[VString ''a'', VString ''b''] ! (3 mod length [VString ''a'', VString ''b'']) = VString ''b''"
    by code_simp
  from ProvisionMachines_selects_round_robin[OF h]
  have "ProvisionMachines_opts 3 zone_ab [] =
          Inr [(''zone'', [VString ''a'', VString ''b''] ! (3 mod length [VString ''a'', VString ''b'']))]"
    unfolding zone_ab_def by fastforce
  then show ?thesis using h run unfolding idx by simp
qed

subsection \<open>Sequential provisioning and abort on the first failure\<close>

lemma run_fail_at_2: "ProvisionMachines (logged (failing_provisioner 2)) 4 zone_ab (0, []) =
     (Inl (Error ''failed to provision machines: quota exceeded''),
      (3, [([(''zone'', VString ''a'')], Inr (machine_of 0 [(''zone'', VString ''a'')])),
           ([(''zone'', VString ''b'')], Inr (machine_of 1 [(''zone'', VString ''b'')])),
           ([(''zone'', VString ''a'')], Inl ''quota exceeded'')]))"
    by code_simp


text \<open>
  C2. On a recording provisioner, started with an empty record: call number \<open>j\<close> is the
  call for machine index \<open>j\<close> (one call per index, in index order); if a call fails, it is
  the last call, so no later index is provisioned, and the result is the error
  "failed to provision machines: " followed by the cause; the infrastructure is left in
  the state the recorded calls produced, so nothing undoes the machines provisioned
  before the failure; on success there is one call per requested machine and the
  machines are returned in the order of the calls. Result and final state are those of
  the run on the provisioner itself.
\<close>

theorem ProvisionMachines_sequential_abort:
  assumes "ProvisionMachines (logged p) numMachines configs (s, []) = (r, (s', log))"
  shows "(\<forall>j < length log. ProvisionMachines_opts j configs [] = Inr (fst (log ! j)))
       \<and> s' = foldl (\<lambda>s opts. snd (p opts s)) s (map fst log)
       \<and> (\<forall>k e. k < length log \<and> snd (log ! k) = Inl e \<longrightarrow>
            r = Inl (Error (''failed to provision machines: '' @ e)) \<and> length log = Suc k)
       \<and> (\<forall>msg. r = Inl (Error msg) \<longrightarrow>
            (\<exists>provisioned e. map snd log = map Inr provisioned @ [Inl e]
               \<and> msg = ''failed to provision machines: '' @ e
               \<and> int (length provisioned) < numMachines))
       \<and> (\<forall>machines. r = Inr machines \<longrightarrow>
            map snd log = map Inr machines \<and> length machines = nat numMachines)
       \<and> ProvisionMachines p numMachines configs s = (r, s')"
    (is "?A \<and> ?B \<and> ?C \<and> ?D \<and> ?E \<and> ?F")
proof -
  note L = ProvisionMachines_logged[OF assms]
  have f: ?F by (rule ProvisionMachines_plain[OF assms])
  have a: ?A by (rule L(1))
  have b: ?B by (rule L(2))
  have d: ?D using L(4) by blast
  have e: ?E using L(3) by blast
  have c: ?C
  proof (intro allI impI)
    fix k e assume "k < length log \<and> snd (log ! k) = Inl e"
    then have k: "k < length log" and f: "snd (log ! k) = Inl e" by simp_all
    from k f have nth: "map snd log ! k = Inl e" by simp
    show "r = Inl (Error (''failed to provision machines: '' @ e)) \<and> length log = Suc k"
    proof (cases r)
      case (Inr machines)
      with L(3) have m: "map snd log = map Inr machines" by blast
      then have "length machines = length log" by (metis length_map)
      with k nth m show ?thesis by simp
    next
      case (Inl x)
      show ?thesis
      proof (cases x)
        case (Error msg)
        with Inl L(4) obtain provisioned e' where
          m: "map snd log = map Inr provisioned @ [Inl e']"
          and msg: "msg = ''failed to provision machines: '' @ e'" by blast
        from m have len: "length log = Suc (length provisioned)" by (metis length_map length_append_singleton)
        have "k = length provisioned"
        proof (rule ccontr)
          assume "k \<noteq> length provisioned"
          with k len have "k < length provisioned" by simp
          with nth m show False by (simp add: nth_append)
        qed
        with nth m have "e' = e" by (simp add: nth_append)
        with Inl Error msg len \<open>k = length provisioned\<close> show ?thesis by simp
      next
        case (Panic pk)
        with Inl L(5) k show ?thesis by simp
      qed
    qed
  qed
  show ?thesis by (intro conjI a b c d e f)
qed



theorem ProvisionMachines_sequential_abort_witness:
  "fst (ProvisionMachines (logged (failing_provisioner 2)) 4 zone_ab (0, [])) =
     Inl (Error ''failed to provision machines: quota exceeded'')
   \<and> length (snd (snd (ProvisionMachines (logged (failing_provisioner 2)) 4 zone_ab (0, [])))) = 3"
proof -
  let ?log = "[([(''zone'', VString ''a'')], Inr (machine_of 0 [(''zone'', VString ''a'')])),
           ([(''zone'', VString ''b'')], Inr (machine_of 1 [(''zone'', VString ''b'')])),
           ([(''zone'', VString ''a'')], Inl ''quota exceeded'')]"
  have k: "2 < length ?log \<and> snd (?log ! 2) = Inl ''quota exceeded''" by simp
  from ProvisionMachines_sequential_abort[OF run_fail_at_2] k
  have "Inl (Error ''failed to provision machines: quota exceeded'') = (Inl (Error (''failed to provision machines: '' @ ''quota exceeded'')) :: failure + DriverOpts Machine list) \<and> length ?log = Suc 2"
    by blast
  then show ?thesis unfolding run_fail_at_2 by simp
qed


subsection \<open>Empty candidate lists\<close>

lemma ProvisionMachines_no_panic:
  assumes "[] \<notin> snd ` set configs"
  shows "fst (ProvisionMachines p n configs s) \<noteq> Inl (Panic pk)"
proof
  assume panic: "fst (ProvisionMachines p n configs s) = Inl (Panic pk)"
  obtain r s' log where run: "ProvisionMachines (logged p) n configs (s, []) = (r, (s', log))"
    by (metis surj_pair)
  from ProvisionMachines_plain[OF run] panic have "r = Inl (Panic pk)" by simp
  with ProvisionMachines_logged(5)[OF run] assms show False by blast
qed

lemma ProvisionMachines_panics:
  assumes "[] \<in> snd ` set configs" "1 \<le> n"
  shows "ProvisionMachines p n configs s = (Inl (Panic DivideByZero), s)"
proof -
  from assms(1) have "ProvisionMachines_opts 0 configs [] = Inl (Panic DivideByZero)"
    by (simp add: opts_panic_iff)
  with assms(2) show ?thesis
    unfolding ProvisionMachines_def by (intro loop_panic) simp_all
qed


text \<open>
  C10. When every candidate list is non-empty the allocator never panics and every index
  \<open>i mod len(values)\<close> is within its list. When some option key has an empty list and at
  least one machine is requested, the remainder panics (division by zero) before the
  provisioner is called: state and record of calls are unchanged. \<^verbatim>\<open>parseDriverOptsSlice\<close>
  keeps a sequence value as it is, the empty sequence included, so a configuration can
  reach the allocator with an empty list.
\<close>

theorem ProvisionMachines_total_iff_nonempty_lists:
  "([] \<notin> snd ` set configs \<longrightarrow>
      (\<forall>pk. fst (ProvisionMachines p n configs s) \<noteq> Inl (Panic pk))
    \<and> (\<forall>i. \<forall>kv \<in> set configs. i mod length (snd kv) < length (snd kv)))
   \<and> ([] \<in> snd ` set configs \<and> 1 \<le> n \<longrightarrow>
        ProvisionMachines (logged p) n configs (s, log) = (Inl (Panic DivideByZero), (s, log)))
   \<and> parseDriverOptsSlice sprintf_v (VMap [(VString k, VSlice l)]) = Inr [(k, l)]
   \<and> (1 \<le> n \<longrightarrow>
        (\<exists>configs'. parseDriverOptsSlice sprintf_v (VMap [(VString k, VSlice [])]) = Inr configs'
           \<and> ProvisionMachines (logged p) n configs' (s, log) = (Inl (Panic DivideByZero), (s, log))))"
    (is "?A \<and> ?B \<and> ?C \<and> ?D")
proof -
  have a: ?A
  proof (intro impI conjI allI ballI)
    fix pk
    assume "[] \<notin> snd ` set configs"
    then show "fst (ProvisionMachines p n configs s) \<noteq> Inl (Panic pk)"
      by (rule ProvisionMachines_no_panic)
  next
    fix i :: nat and kv assume "[] \<notin> snd ` set configs" "kv \<in> set configs"
    then have "snd kv \<noteq> []" by force
    then show "i mod length (snd kv) < length (snd kv)" by simp
  qed
  have b: ?B by (simp add: ProvisionMachines_panics)
  have c: ?C by (simp add: parseDriverOptsSlice_def)
  have d: ?D by (simp add: parseDriverOptsSlice_def ProvisionMachines_panics)
  from a b c d show ?thesis by blast
qed

theorem ProvisionMachines_total_iff_nonempty_lists_witness:
  "ProvisionMachines (logged fake_provisioner) 1 [(''zone'', [])] (0, []) =
     (Inl (Panic DivideByZero), (0, []))
   \<and> fst (ProvisionMachines fake_provisioner 4 zone_ab 0) \<noteq> Inl (Panic DivideByZero)"
proof -
  have h: "[] \<in> snd ` set [(''zone'', [] :: val list)] \<and> (1::int) \<le> 1" by simp
  have h': "[] \<notin> snd ` set zone_ab" by (simp add: zone_ab_def)
  from ProvisionMachines_total_iff_nonempty_lists[of "[(''zone'', [])]" fake_provisioner 1 0 "[]"] h
  have 1: "ProvisionMachines (logged fake_provisioner) 1 [(''zone'', [])] (0, []) =
     (Inl (Panic DivideByZero), (0, []))" by blast
  from ProvisionMachines_total_iff_nonempty_lists[of zone_ab fake_provisioner 4 0] h'
  have 2: "fst (ProvisionMachines fake_provisioner 4 zone_ab 0) \<noteq> Inl (Panic DivideByZero)" by blast
  from 1 2 show ?thesis by blast
qed

subsection \<open>The apps pool policy\<close>

text \<open>A provisioner that never fails, given non-empty candidate lists, makes the
  allocator succeed.\<close>

lemma loop_succeeds:
  assumes ok: "\<And>opts s. \<exists>m s'. p opts s = (Inr m, s')" and ne: "[] \<notin> snd ` set configs"
  shows "\<exists>ms' s'. ProvisionMachines_loop p n configs i ms s = (Inr ms', s')"
proof (induction "nat (n - int i)" arbitrary: i ms s)
  case 0
  then have "\<not> int i < n" by simp
  then show ?case by (simp add: loop_done)
next
  case (Suc k)
  then have lt: "int i < n" by linarith
  from ne obtain opts where o: "ProvisionMachines_opts i configs [] = Inr opts"
    by (simp add: opts_ok)
  from ok obtain m s1 where p: "p opts s = (Inr m, s1)" by blast
  from Suc.hyps(2) have k: "k = nat (n - int (Suc i))" by simp
  from Suc.hyps(1)[OF k] loop_step[where p=p, OF lt o p] show ?case by simp
qed

lemma ProvisionMachines_succeeds:
  assumes "\<And>opts s. \<exists>m s'. p opts s = (Inr m, s')" and "[] \<notin> snd ` set configs"
  shows "\<exists>ms s'. ProvisionMachines p n configs s = (Inr ms, s')"
  unfolding ProvisionMachines_def using assms by (rule loop_succeeds)

lemma logged_succeeds:
  "(\<And>opts s. \<exists>m s'. p opts s = (Inr m, s')) \<Longrightarrow> \<exists>m s'. logged p opts s = (Inr m, s')"
  by (cases s) (metis (mono_tags, lifting) logged_simp old.prod.case)

lemma ProvisionPool_plain:
  assumes "ProvisionPool (logged p) config hosts (s, log) = (r, (s', log'))"
  shows "ProvisionPool p config hosts s = (r, s')"
proof (cases "DedicatedAppsHosts config")
  case True
  with assms have "ProvisionMachines (logged p) (AppsHosts config) (AppsDriversOpts config) (s, log)
                     = (r, (s', log'))"
    by (simp add: ProvisionPool_def)
  from ProvisionMachines_plain[OF this] True show ?thesis by (simp add: ProvisionPool_def)
next
  case False
  show ?thesis
  proof (cases "int (length hosts) < AppsHosts config")
    case True
    let ?n = "AppsHosts config - int (length hosts)"
    obtain r1 s1 l1 where run:
      "ProvisionMachines (logged p) ?n (AppsDriversOpts config) (s, log) = (r1, (s1, l1))"
      by (metis surj_pair)
    from ProvisionMachines_plain[OF run]
    have plain: "ProvisionMachines p ?n (AppsDriversOpts config) s = (r1, s1)" .
    from assms False True run plain show ?thesis
      by (cases r1) (auto simp: ProvisionPool_def)
  next
    case lt: False
    with assms False show ?thesis by (auto simp: ProvisionPool_def split: if_splits)
  qed
qed

lemma run_pool_5: "ProvisionPool (logged fake_provisioner) (example_plan 5 False) core3 (0, []) =
   (Inr ([machine_of 0 [(''zone'', VString ''a'')], machine_of 1 [(''zone'', VString ''b'')]] @ core3),
    (2, [([(''zone'', VString ''a'')], Inr (machine_of 0 [(''zone'', VString ''a'')])),
         ([(''zone'', VString ''b'')], Inr (machine_of 1 [(''zone'', VString ''b'')]))]))"
  by code_simp

lemma run_pool_dedicated:
  "ProvisionPool (logged fake_provisioner) (example_plan 2 True) core3 (0, []) =
   (Inr [machine_of 0 [(''zone'', VString ''a'')], machine_of 1 [(''zone'', VString ''b'')]],
    (2, [([(''zone'', VString ''a'')], Inr (machine_of 0 [(''zone'', VString ''a'')])),
         ([(''zone'', VString ''b'')], Inr (machine_of 1 [(''zone'', VString ''b'')]))]))"
  by code_simp


text \<open>
  C3. For a plan that is not dedicated and asks for more apps hosts than there are core
  machines: when \<^verbatim>\<open>ProvisionPool\<close> returns machines, they are the freshly provisioned
  machines followed by all core machines; the fresh ones are exactly the machines the
  provisioner returned in this call, \<open>appsHosts - len(coreMachines)\<close> of them; the result
  has \<open>appsHosts\<close> elements and its last \<open>len(coreMachines)\<close> elements are the core machines
  in their order. When it returns no machines, either the provisioner failed in its last
  call (the error wraps the cause) or a candidate list is empty. It does return machines
  whenever the provisioner never fails and no candidate list is empty. Result and final
  state are those of the run on the provisioner itself.
\<close>

theorem ProvisionPool_deficit_then_core:
  assumes "\<not> DedicatedAppsHosts config" and "int (length coreMachines) < AppsHosts config"
  shows "(\<forall>machines s' log.
            ProvisionPool (logged p) config coreMachines (s, []) = (Inr machines, (s', log)) \<longrightarrow>
              (\<exists>fresh. machines = fresh @ coreMachines
                 \<and> map snd log = map Inr fresh
                 \<and> int (length fresh) = AppsHosts config - int (length coreMachines)
                 \<and> int (length machines) = AppsHosts config
                 \<and> drop (length machines - length coreMachines) machines = coreMachines))
       \<and> (\<forall>e s' log.
            ProvisionPool (logged p) config coreMachines (s, []) = (Inl e, (s', log)) \<longrightarrow>
              (e = Panic DivideByZero \<and> [] \<in> snd ` set (AppsDriversOpts config) \<and> log = [])
            \<or> (\<exists>provisioned cause. map snd log = map Inr provisioned @ [Inl cause]
                 \<and> e = Error (''failed to provision pool hosts: failed to provision machines: ''
                               @ cause)))
       \<and> ((\<forall>opts s. \<exists>m s'. p opts s = (Inr m, s')) \<and> [] \<notin> snd ` set (AppsDriversOpts config) \<longrightarrow>
            (\<exists>machines st. ProvisionPool (logged p) config coreMachines (s, []) = (Inr machines, st)))
       \<and> (\<forall>r s' log. ProvisionPool (logged p) config coreMachines (s, []) = (r, (s', log)) \<longrightarrow>
            ProvisionPool p config coreMachines s = (r, s'))"
    (is "?A \<and> ?B \<and> ?C \<and> ?D")
proof -
  have d: ?D by (intro allI impI) (rule ProvisionPool_plain)
  let ?n = "AppsHosts config - int (length coreMachines)"
  obtain r s1 log1 where run:
    "ProvisionMachines (logged p) ?n (AppsDriversOpts config) (s, []) = (r, (s1, log1))"
    by (metis surj_pair)
  note L = ProvisionMachines_logged[OF run]
  have pool: "ProvisionPool (logged p) config coreMachines (s, []) =
      (case r of Inl err \<Rightarrow> (Inl (errorf ''failed to provision pool hosts: '' err), (s1, log1))
               | Inr poolMachines \<Rightarrow> (Inr (poolMachines @ coreMachines), (s1, log1)))"
    using assms run by (simp add: ProvisionPool_def split: sum.splits)
  have a: ?A
  proof (intro allI impI)
    fix machines s' log
    assume res: "ProvisionPool (logged p) config coreMachines (s, []) = (Inr machines, (s', log))"
    with pool obtain fresh where r: "r = Inr fresh" and m: "machines = fresh @ coreMachines"
      and l: "log = log1" by (cases r) auto
    from L(3)[OF r] assms(2) have "map snd log1 = map Inr fresh" "int (length fresh) = ?n"
      by simp_all
    with m l show "\<exists>fresh. machines = fresh @ coreMachines
                 \<and> map snd log = map Inr fresh
                 \<and> int (length fresh) = AppsHosts config - int (length coreMachines)
                 \<and> int (length machines) = AppsHosts config
                 \<and> drop (length machines - length coreMachines) machines = coreMachines"
      by (intro exI[of _ fresh]) auto
  qed
  have b: ?B
  proof (intro allI impI)
    fix e s' log
    assume res: "ProvisionPool (logged p) config coreMachines (s, []) = (Inl e, (s', log))"
    with pool obtain err where r: "r = Inl err"
      and e: "e = errorf ''failed to provision pool hosts: '' err" and l: "log = log1"
      by (cases r) auto
    show "(e = Panic DivideByZero \<and> [] \<in> snd ` set (AppsDriversOpts config) \<and> log = [])
            \<or> (\<exists>provisioned cause. map snd log = map Inr provisioned @ [Inl cause]
                 \<and> e = Error (''failed to provision pool hosts: failed to provision machines: ''
                               @ cause))"
    proof (cases err)
      case (Error msg)
      with r L(4) obtain provisioned cause where
        "map snd log1 = map Inr provisioned @ [Inl cause]"
        "msg = ''failed to provision machines: '' @ cause" by blast
      with e l Error show ?thesis by auto
    next
      case (Panic pk)
      with r L(5) e l show ?thesis by auto
    qed
  qed
  have c: ?C
  proof (intro impI)
    assume h: "(\<forall>opts s. \<exists>m s'. p opts s = (Inr m, s')) \<and> [] \<notin> snd ` set (AppsDriversOpts config)"
    then have "\<And>opts s. \<exists>m s'. logged p opts s = (Inr m, s')"
      by (intro logged_succeeds) blast
    from ProvisionMachines_succeeds[where p="logged p" and configs="AppsDriversOpts config"
           and n="?n" and s="(s, [])", OF this] h run
    obtain ms where "r = Inr ms" by auto
    with pool show "\<exists>machines st. ProvisionPool (logged p) config coreMachines (s, []) = (Inr machines, st)"
      by simp
  qed
  show ?thesis by (intro conjI a b c d)
qed

theorem ProvisionPool_deficit_then_core_witness:
  "\<not> DedicatedAppsHosts (example_plan 5 False)
   \<and> int (length core3) < AppsHosts (example_plan 5 False)
   \<and> (\<exists>fresh. fst (ProvisionPool (logged fake_provisioner) (example_plan 5 False) core3 (0, []))
                 = Inr (fresh @ core3) \<and> length fresh = 2)"
proof -
  have h: "\<not> DedicatedAppsHosts (example_plan 5 False)"
          "int (length core3) < AppsHosts (example_plan 5 False)"
    by (simp_all add: example_plan_def core3_def)
  from ProvisionPool_deficit_then_core[OF h, of fake_provisioner 0] run_pool_5
  obtain fresh where "[machine_of 0 [(''zone'', VString ''a'')], machine_of 1 [(''zone'', VString ''b'')]] @ core3 = fresh @ core3"
     "int (length fresh) = AppsHosts (example_plan 5 False) - int (length core3)"
    by blast
  then have "fst (ProvisionPool (logged fake_provisioner) (example_plan 5 False) core3 (0, []))
                 = Inr (fresh @ core3) \<and> length fresh = 2"
    unfolding run_pool_5 by (simp add: example_plan_def core3_def)
  with h show ?thesis by blast
qed



text \<open>With a negative \<^verbatim>\<open>AppsHosts\<close> the slice expression of the reuse branch panics.\<close>

lemma ProvisionPool_negative_panics:
  "\<not> DedicatedAppsHosts config \<Longrightarrow> AppsHosts config < 0 \<Longrightarrow>
   ProvisionPool p config hosts s = (Inl (Panic SliceBoundsOutOfRange), s)"
  by (simp add: ProvisionPool_def)

text \<open>
  C5, as stated, fails for a negative host count: the plan below is not dedicated and its
  \<open>appsHosts = -1\<close> is at most the number of core machines, yet \<^verbatim>\<open>ProvisionPool\<close> does not
  return machines, it panics on \<^verbatim>\<open>hosts[:-1]\<close>.
\<close>

theorem ProvisionPool_negative_appsHosts_counterexample:
  "\<not> DedicatedAppsHosts (example_plan (- 1) False)
   \<and> AppsHosts (example_plan (- 1) False) \<le> int (length core3)
   \<and> ProvisionPool fake_provisioner (example_plan (- 1) False) core3 0 =
       (Inl (Panic SliceBoundsOutOfRange), 0)"
  by (simp add: ProvisionPool_def example_plan_def core3_def)

text \<open>
  C5, amended. For a dedicated plan \<^verbatim>\<open>ProvisionPool\<close> is the allocator run for \<open>appsHosts\<close>
  machines: its outcome does not depend on the core machines, and the machines it
  returns are exactly the machines the provisioner returned in this call, one per
  requested host. For a plan that is not dedicated with
  \<open>0 \<le> appsHosts \<le> len(coreMachines)\<close> it returns the first \<open>appsHosts\<close> core machines in
  their order and makes no call on the provisioner (state and record of calls are
  unchanged).
\<close>

theorem ProvisionPool_dedicated_or_reuse:
  "(DedicatedAppsHosts config \<longrightarrow>
       ProvisionPool p config coreMachines s =
         ProvisionMachines p (AppsHosts config) (AppsDriversOpts config) s
     \<and> (\<forall>other. ProvisionPool p config other s = ProvisionPool p config coreMachines s)
     \<and> (\<forall>machines s' log.
          ProvisionPool (logged p) config coreMachines (s, []) = (Inr machines, (s', log)) \<longrightarrow>
            map snd log = map Inr machines \<and> length machines = nat (AppsHosts config)))
   \<and> (\<not> DedicatedAppsHosts config \<and> 0 \<le> AppsHosts config
        \<and> AppsHosts config \<le> int (length coreMachines) \<longrightarrow>
       ProvisionPool (logged p) config coreMachines (s, log) =
         (Inr (take (nat (AppsHosts config)) coreMachines), (s, log)))"
    (is "?A \<and> ?B")
proof -
  have a: ?A
  proof (intro impI conjI allI)
    assume d: "DedicatedAppsHosts config"
    then show "ProvisionPool p config coreMachines s =
         ProvisionMachines p (AppsHosts config) (AppsDriversOpts config) s"
      by (simp add: ProvisionPool_def)
    from d show "\<And>other. ProvisionPool p config other s = ProvisionPool p config coreMachines s"
      by (simp add: ProvisionPool_def)
    fix machines s' log
    assume "ProvisionPool (logged p) config coreMachines (s, []) = (Inr machines, (s', log))"
    with d have run: "ProvisionMachines (logged p) (AppsHosts config) (AppsDriversOpts config) (s, [])
                       = (Inr machines, (s', log))"
      by (simp add: ProvisionPool_def)
    from ProvisionMachines_logged(3)[OF run]
    show "map snd log = map Inr machines" "length machines = nat (AppsHosts config)" by simp_all
  qed
  have b: ?B by (simp add: ProvisionPool_def)
  from a b show ?thesis by blast
qed

theorem ProvisionPool_dedicated_or_reuse_witness:
  "DedicatedAppsHosts (example_plan 2 True)
   \<and> length (projr (fst (ProvisionPool (logged fake_provisioner) (example_plan 2 True) core3 (0, [])))) = 2
   \<and> \<not> DedicatedAppsHosts (example_plan 2 False) \<and> 0 \<le> AppsHosts (example_plan 2 False)
   \<and> AppsHosts (example_plan 2 False) \<le> int (length core3)
   \<and> ProvisionPool (logged fake_provisioner) (example_plan 2 False) core3 (0, []) =
       (Inr [machine_of 10 [], machine_of 11 []], (0, []))"
proof -
  have h1: "DedicatedAppsHosts (example_plan 2 True)" by (simp add: example_plan_def)
  have h2: "\<not> DedicatedAppsHosts (example_plan 2 False) \<and> 0 \<le> AppsHosts (example_plan 2 False)
     \<and> AppsHosts (example_plan 2 False) \<le> int (length core3)"
    by (simp add: example_plan_def core3_def)
  have n: "nat (AppsHosts (example_plan 2 True)) = 2" "nat (AppsHosts (example_plan 2 False)) = 2"
    by (simp_all add: example_plan_def)
  from ProvisionPool_dedicated_or_reuse[of "example_plan 2 True" fake_provisioner core3 0] h1 run_pool_dedicated
  have "length [machine_of 0 [(''zone'', VString ''a'')], machine_of 1 [(''zone'', VString ''b'')]]
          = nat (AppsHosts (example_plan 2 True))"
    by blast
  then have 1: "length (projr (fst (ProvisionPool (logged fake_provisioner) (example_plan 2 True) core3 (0, [])))) = 2"
    unfolding run_pool_dedicated n by simp
  from ProvisionPool_dedicated_or_reuse[of "example_plan 2 False" fake_provisioner core3 0 "[]"] h2
  have "ProvisionPool (logged fake_provisioner) (example_plan 2 False) core3 (0, []) =
         (Inr (take (nat (AppsHosts (example_plan 2 False))) core3), (0, []))"
    by blast
  then have 2: "ProvisionPool (logged fake_provisioner) (example_plan 2 False) core3 (0, []) =
       (Inr [machine_of 10 [], machine_of 11 []], (0, []))"
    unfolding n by (simp add: core3_def)
  from h1 h2 1 2 show ?thesis by blast
qed

subsection \<open>The component loop\<close>

lemma logged_component_simps:
  "TsuruComponent.Name (logged_component c) = TsuruComponent.Name c"
  "Install (logged_component c) cluster cc (w, log) =
     (case Install c cluster cc w of
        (r, w') \<Rightarrow> (r, (w', log @ [(TsuruComponent.Name c, cluster, cc, r)])))"
  by (simp_all add: logged_component_def)

lemma installComponents_logged:
  "Run_installComponents (map logged_component catalog) cluster cc stdout (w, log)
     = (r, stdout', (w', log')) \<Longrightarrow>
   \<exists>new. log' = log @ new
     \<and> w' = foldl (\<lambda>w c. snd (Install c cluster cc w)) w (take (length new) catalog)
     \<and> (r = None \<longrightarrow> new = map (\<lambda>c. (TsuruComponent.Name c, cluster, cc, None)) catalog)
     \<and> (\<forall>msg. r = Some msg \<longrightarrow>
          (\<exists>installed failing later cause.
             catalog = installed @ failing # later
           \<and> new = map (\<lambda>c. (TsuruComponent.Name c, cluster, cc, None)) installed
                   @ [(TsuruComponent.Name failing, cluster, cc, Some cause)]
           \<and> msg = ''error installing '' @ TsuruComponent.Name failing @ '': '' @ cause))"
proof (induction catalog arbitrary: stdout w log)
  case Nil
  then show ?case by simp
next
  case (Cons c cs)
  obtain res w1 where i: "Install c cluster cc w = (res, w1)" by (cases "Install c cluster cc w")
  let ?entry = "(TsuruComponent.Name c, cluster, cc, res)"
  show ?case
  proof (cases res)
    case (Some cause)
    with i Cons.prems have
      "r = Some (''error installing '' @ TsuruComponent.Name c @ '': '' @ cause)"
      "w' = w1" "log' = log @ [?entry]"
      by (simp_all add: logged_component_simps Let_def)
    with i Some show ?thesis
      apply -
      apply (intro exI[of _ "[?entry]"] conjI)
         apply simp
        apply simp
       apply simp
      apply (intro allI impI)
      apply (rule exI[of _ "[]"], rule exI[of _ c], rule exI[of _ cs], rule exI[of _ cause])
      apply simp
      done
  next
    case None
    with i Cons.prems obtain out1 where
      rec: "Run_installComponents (map logged_component cs) cluster cc out1 (w1, log @ [?entry])
              = (r, stdout', (w', log'))"
      by (simp add: logged_component_simps Let_def)
    from Cons.IH[OF rec] obtain new where new:
      "log' = (log @ [?entry]) @ new"
      "w' = foldl (\<lambda>w c. snd (Install c cluster cc w)) w1 (take (length new) cs)"
      "r = None \<longrightarrow> new = map (\<lambda>c. (TsuruComponent.Name c, cluster, cc, None)) cs"
      "\<forall>msg. r = Some msg \<longrightarrow>
          (\<exists>installed failing later cause.
             cs = installed @ failing # later
           \<and> new = map (\<lambda>c. (TsuruComponent.Name c, cluster, cc, None)) installed
                   @ [(TsuruComponent.Name failing, cluster, cc, Some cause)]
           \<and> msg = ''error installing '' @ TsuruComponent.Name failing @ '': '' @ cause)"
      by blast
    let ?new = "?entry # new"
    have 1: "log' = log @ ?new" using new(1) by simp
    have 2: "w' = foldl (\<lambda>w c. snd (Install c cluster cc w)) w (take (length ?new) (c # cs))"
      using new(2) i by simp
    have 3: "r = None \<longrightarrow> ?new = map (\<lambda>c. (TsuruComponent.Name c, cluster, cc, None)) (c # cs)"
      using new(3) None by simp
    have 4: "\<forall>msg. r = Some msg \<longrightarrow>
          (\<exists>installed failing later cause.
             c # cs = installed @ failing # later
           \<and> ?new = map (\<lambda>c. (TsuruComponent.Name c, cluster, cc, None)) installed
                   @ [(TsuruComponent.Name failing, cluster, cc, Some cause)]
           \<and> msg = ''error installing '' @ TsuruComponent.Name failing @ '': '' @ cause)"
    proof (intro allI impI)
      fix msg assume "r = Some msg"
      with new(4) obtain installed failing later cause where f:
        "cs = installed @ failing # later"
        "new = map (\<lambda>c. (TsuruComponent.Name c, cluster, cc, None)) installed
                   @ [(TsuruComponent.Name failing, cluster, cc, Some cause)]"
        "msg = ''error installing '' @ TsuruComponent.Name failing @ '': '' @ cause"
        by blast
      show "\<exists>installed failing later cause.
             c # cs = installed @ failing # later
           \<and> ?new = map (\<lambda>c. (TsuruComponent.Name c, cluster, cc, None)) installed
                   @ [(TsuruComponent.Name failing, cluster, cc, Some cause)]
           \<and> msg = ''error installing '' @ TsuruComponent.Name failing @ '': '' @ cause"
        apply (rule exI[of _ "c # installed"])
        apply (rule exI[of _ failing], rule exI[of _ later], rule exI[of _ cause])
        using f None by simp
    qed
    show ?thesis
      by (rule exI[of _ ?new]) (intro conjI 1 2 3 4)
  qed
qed

lemma installComponents_plain:
  "Run_installComponents (map logged_component catalog) cluster cc stdout (w, log)
     = (r, stdout', (w', log')) \<Longrightarrow>
   Run_installComponents catalog cluster cc stdout w = (r, stdout', w')"
proof (induction catalog arbitrary: stdout w log)
  case Nil
  then show ?case by simp
next
  case (Cons c cs)
  obtain res w1 where i: "Install c cluster cc w = (res, w1)" by (cases "Install c cluster cc w")
  show ?case
  proof (cases res)
    case (Some cause)
    with i Cons.prems show ?thesis by (simp add: logged_component_simps Let_def)
  next
    case None
    with i Cons.prems Cons.IH show ?thesis by (simp add: logged_component_simps Let_def)
  qed
qed

lemma run_ABC:
  "Run_installComponents (map logged_component catalog_ABC) ''cluster'' ''settings'' [] ([], []) =
     (Some ''error installing B: image not found'',
      [''Installing A'' @ [CHR 0x0A], ''A successfully installed!'' @ [CHR 0x0A],
       ''Installing B'' @ [CHR 0x0A]],
      ([''A''],
       [(''A'', ''cluster'', ''settings'', None),
        (''B'', ''cluster'', ''settings'', Some ''image not found'')]))"
  by code_simp


text \<open>
  C4. The loop over the catalog, on recording components: when it ends without error,
  \<^verbatim>\<open>Install\<close> was called once on every component, in catalog order, each time with the
  cluster handle and the settings. When it returns an error, the catalog splits into the
  components installed, the failing one and the later ones: \<^verbatim>\<open>Install\<close> was called on the
  installed ones and on the failing one, in this order, and on no later one, and the error
  is "error installing " followed by the name of the failing component and the cause. In
  both cases the world is left as these \<^verbatim>\<open>Install\<close> calls made it: nothing undoes the
  earlier installs. The recording changes neither the result nor the world.
\<close>

theorem Run_installComponents_stops_at_first_failure:
  assumes "Run_installComponents (map logged_component catalog) cluster cc stdout (w, [])
             = (r, stdout', (w', log))"
  shows "w' = foldl (\<lambda>w c. snd (Install c cluster cc w)) w (take (length log) catalog)
       \<and> (r = None \<longrightarrow> log = map (\<lambda>c. (TsuruComponent.Name c, cluster, cc, None)) catalog)
       \<and> (\<forall>msg. r = Some msg \<longrightarrow>
            (\<exists>installed failing later cause.
               catalog = installed @ failing # later
             \<and> log = map (\<lambda>c. (TsuruComponent.Name c, cluster, cc, None)) installed
                     @ [(TsuruComponent.Name failing, cluster, cc, Some cause)]
             \<and> msg = ''error installing '' @ TsuruComponent.Name failing @ '': '' @ cause))
       \<and> Run_installComponents catalog cluster cc stdout w = (r, stdout', w')"
proof -
  from installComponents_logged[OF assms] obtain new where new:
    "log = [] @ new"
    "w' = foldl (\<lambda>w c. snd (Install c cluster cc w)) w (take (length new) catalog)"
    "r = None \<longrightarrow> new = map (\<lambda>c. (TsuruComponent.Name c, cluster, cc, None)) catalog"
    "\<forall>msg. r = Some msg \<longrightarrow>
          (\<exists>installed failing later cause.
             catalog = installed @ failing # later
           \<and> new = map (\<lambda>c. (TsuruComponent.Name c, cluster, cc, None)) installed
                   @ [(TsuruComponent.Name failing, cluster, cc, Some cause)]
           \<and> msg = ''error installing '' @ TsuruComponent.Name failing @ '': '' @ cause)"
    by blast
  from new(1) have eq: "new = log" by simp
  show ?thesis
    using new(2,3,4) installComponents_plain[OF assms] unfolding eq by (intro conjI)
qed



theorem Run_installComponents_stops_at_first_failure_witness:
  "fst (Run_installComponents catalog_ABC ''cluster'' ''settings'' [] []) =
     Some ''error installing B: image not found''
   \<and> snd (snd (Run_installComponents catalog_ABC ''cluster'' ''settings'' [] [])) = [''A'']"
proof -
  from Run_installComponents_stops_at_first_failure[OF run_ABC]
  have "Run_installComponents catalog_ABC ''cluster'' ''settings'' [] [] =
     (Some ''error installing B: image not found'',
      [''Installing A'' @ [CHR 0x0A], ''A successfully installed!'' @ [CHR 0x0A],
       ''Installing B'' @ [CHR 0x0A]], [''A''])"
    by (elim conjE)
  then show ?thesis by simp
qed

subsection \<open>Registration of the hosts\<close>

text \<open>The index built by \<^verbatim>\<open>machineIndex[m.Name] = m\<close> over the combined list holds, for
  every name, the last machine of the list with that name.\<close>

lemma find_append2:
  "find P (xs @ ys) = (case find P xs of None \<Rightarrow> find P ys | Some x \<Rightarrow> Some x)"
  by (induction xs) simp_all

lemma last_named_Nil: "last_named [] n = None"
  by (simp add: last_named_def)

lemma last_named_Cons:
  "last_named (m # ms) n =
     (case last_named ms n of
        Some x \<Rightarrow> Some x
      | None \<Rightarrow> if Machine.Name m = n then Some m else None)"
  by (simp add: last_named_def find_append2 split: option.splits)

lemma last_named_Some:
  "last_named ms n = Some m \<Longrightarrow> Machine.Name m = n \<and> m \<in> set ms"
  by (induction ms) (auto simp: last_named_Nil last_named_Cons split: option.splits if_splits)

lemma last_named_None: "last_named ms n = None \<longleftrightarrow> n \<notin> Machine.Name ` set ms"
  by (induction ms) (auto simp: last_named_Nil last_named_Cons split: option.splits if_splits)

lemma foldl_update_distinct:
  "distinct (map fst idx) \<Longrightarrow>
   distinct (map fst (foldl (\<lambda>machineIndex m. AList.update (f m) m machineIndex) idx ms))"
  by (induction ms arbitrary: idx) (simp_all add: distinct_update)

lemma foldl_update_map_of:
  "map_of (foldl (\<lambda>machineIndex m. AList.update (Machine.Name m) m machineIndex) idx ms) n =
     (case last_named ms n of Some m \<Rightarrow> Some m | None \<Rightarrow> map_of idx n)"
proof (induction ms arbitrary: idx)
  case Nil
  then show ?case by (simp add: last_named_Nil)
next
  case (Cons m ms)
  show ?case
    by (simp add: Cons.IH last_named_Cons update_conv' split: option.splits)
qed

lemma machineIndex_distinct: "distinct (map fst (Run_machineIndex ms))"
  unfolding Run_machineIndex_def by (rule foldl_update_distinct) simp

lemma machineIndex_map_of: "map_of (Run_machineIndex ms) n = last_named ms n"
  unfolding Run_machineIndex_def by (simp add: foldl_update_map_of split: option.splits)

lemma machineIndex_entry:
  "(n, m) \<in> set (Run_machineIndex ms) \<longleftrightarrow> last_named ms n = Some m"
proof
  assume "(n, m) \<in> set (Run_machineIndex ms)"
  with machineIndex_distinct[of ms] have "map_of (Run_machineIndex ms) n = Some m"
    by (rule map_of_is_SomeI)
  then show "last_named ms n = Some m" by (simp add: machineIndex_map_of)
next
  assume "last_named ms n = Some m"
  then have "map_of (Run_machineIndex ms) n = Some m" by (simp add: machineIndex_map_of)
  then show "(n, m) \<in> set (Run_machineIndex ms)" by (rule map_of_SomeD)
qed

lemma machineIndex_names:
  "map Machine.Name (map snd (Run_machineIndex ms)) = map fst (Run_machineIndex ms)"
proof -
  have "\<And>e. e \<in> set (Run_machineIndex ms) \<Longrightarrow> Machine.Name (snd e) = fst e"
  proof -
    fix e assume "e \<in> set (Run_machineIndex ms)"
    then have "(fst e, snd e) \<in> set (Run_machineIndex ms)" by simp
    then have "last_named ms (fst e) = Some (snd e)" by (simp only: machineIndex_entry)
    then show "Machine.Name (snd e) = fst e" by (simp add: last_named_Some)
  qed
  then show ?thesis by simp
qed

lemma machineIndex_values:
  "m \<in> snd ` set (Run_machineIndex ms) \<longleftrightarrow> last_named ms (Machine.Name m) = Some m"
proof
  assume "m \<in> snd ` set (Run_machineIndex ms)"
  then obtain n where e: "(n, m) \<in> set (Run_machineIndex ms)" by force
  then have l: "last_named ms n = Some m" by (simp only: machineIndex_entry)
  with last_named_Some[OF l] show "last_named ms (Machine.Name m) = Some m" by simp
next
  assume "last_named ms (Machine.Name m) = Some m"
  then have "(Machine.Name m, m) \<in> set (Run_machineIndex ms)" by (simp only: machineIndex_entry)
  then show "m \<in> snd ` set (Run_machineIndex ms)" by force
qed

lemma machineIndex_name_set:
  "fst ` set (Run_machineIndex ms) = Machine.Name ` set ms"
proof (intro set_eqI iffI)
  fix n assume "n \<in> fst ` set (Run_machineIndex ms)"
  then obtain m where "(n, m) \<in> set (Run_machineIndex ms)" by force
  then have "last_named ms n = Some m" by (simp only: machineIndex_entry)
  then show "n \<in> Machine.Name ` set ms" using last_named_Some by force
next
  fix n assume "n \<in> Machine.Name ` set ms"
  then have "last_named ms n \<noteq> None" by (simp add: last_named_None)
  then obtain m where "last_named ms n = Some m" by blast
  then have "(n, m) \<in> set (Run_machineIndex ms)" by (simp only: machineIndex_entry)
  then show "n \<in> fst ` set (Run_machineIndex ms)" by force
qed


lemma logged_client_simp:
  "logged_client do request (w, log) =
     (case do request w of (r, w') \<Rightarrow> (r, (w', log @ [request])))"
  by (simp add: logged_client_def)

lemma request_fields:
  assumes "addInstallHosts_request env path m out = (Inr req, out')"
  shows "map_of (Body req) ''name'' = Some (Machine.Name m)"
    and "\<exists>raw. Marshal env (Driver m) = Inr raw \<and> map_of (Body req) ''driver'' = Some raw"
    and "map_of (Body req) ''driverName'' = Some (Machine.DriverName m)"
    and "Method req = ''POST''" and "URL req = path"
  using assms
  by (auto simp: addInstallHosts_request_def Let_def split: sum.splits prod.splits option.splits)

lemma addInstallHosts_loop_logged:
  "addInstallHosts_loop env (logged_client do) path ms stdout (w, log) = (r, stdout', (w', log')) \<Longrightarrow>
   \<exists>new. log' = log @ new \<and> length new \<le> length ms
      \<and> (\<forall>i < length new. \<exists>out. fst (addInstallHosts_request env path (ms ! i) out) = Inr (new ! i))
      \<and> (r = None \<longrightarrow> length new = length ms)"
proof (induction ms arbitrary: stdout w log)
  case Nil
  then show ?case by simp
next
  case (Cons m ms)
  obtain q out1 where q: "addInstallHosts_request env path m stdout = (q, out1)"
    by (cases "addInstallHosts_request env path m stdout")
  show ?case
  proof (cases q)
    case (Inl err)
    with q Cons.prems have "r = Some err" "log' = log" by auto
    then show ?thesis by (intro exI[of _ "[]"]) simp
  next
    case (Inr req)
    obtain res w1 where d: "do req w = (res, w1)" by (cases "do req w")
    show ?thesis
    proof (cases res)
      case (Some err)
      with q Inr d Cons.prems have "r = Some err" "log' = log @ [req]"
        by (simp_all add: logged_client_simp)
      moreover have "fst (addInstallHosts_request env path m stdout) = Inr req"
        using q Inr by simp
      ultimately show ?thesis
        by (intro exI[of _ "[req]"]) auto
    next
      case None
      with q Inr d Cons.prems have
        rec: "addInstallHosts_loop env (logged_client do) path ms out1 (w1, log @ [req])
                = (r, stdout', (w', log'))"
        by (simp add: logged_client_simp)
      from Cons.IH[OF rec] obtain new where new:
        "log' = (log @ [req]) @ new" "length new \<le> length ms"
        "\<forall>i < length new. \<exists>out. fst (addInstallHosts_request env path (ms ! i) out) = Inr (new ! i)"
        "r = None \<longrightarrow> length new = length ms"
        by blast
      have here: "fst (addInstallHosts_request env path m stdout) = Inr req"
        using q Inr by simp
      have 3: "\<forall>i < length (req # new).
                 \<exists>out. fst (addInstallHosts_request env path ((m # ms) ! i) out) = Inr ((req # new) ! i)"
      proof (intro allI impI)
        fix i assume "i < length (req # new)"
        then show "\<exists>out. fst (addInstallHosts_request env path ((m # ms) ! i) out) = Inr ((req # new) ! i)"
          using here new(3) by (cases i) auto
      qed
      show ?thesis
        using new(1,2,4) 3 by (intro exI[of _ "req # new"]) simp
    qed
  qed
qed


lemma addInstallHosts_logged:
  assumes "addInstallHosts env (logged_client do) ms stdout (w, []) = (r, stdout', (w', log))"
  shows "length log \<le> length ms"
    and "map (\<lambda>req. map_of (Body req) ''name'') log = map (\<lambda>m. Some (Machine.Name m)) (take (length log) ms)"
    and "\<forall>i < length log. \<exists>raw. Marshal env (Driver (ms ! i)) = Inr raw
            \<and> map_of (Body (log ! i)) ''driver'' = Some raw
            \<and> map_of (Body (log ! i)) ''driverName'' = Some (Machine.DriverName (ms ! i))"
    and "r = None \<Longrightarrow> length log = length ms"
proof -
  have main: "length log \<le> length ms
      \<and> (\<forall>i < length log. \<exists>path out. fst (addInstallHosts_request env path (ms ! i) out) = Inr (log ! i))
      \<and> (r = None \<longrightarrow> length log = length ms)"
  proof (cases "GetURLVersion env ''1.3'' ''/install/hosts''")
    case (Inl err)
    with assms have "r = Some err" "log = []" by (auto simp: addInstallHosts_def)
    then show ?thesis by simp
  next
    case (Inr path)
    with assms have "addInstallHosts_loop env (logged_client do) path ms stdout (w, []) = (r, stdout', (w', log))"
      by (simp add: addInstallHosts_def)
    from addInstallHosts_loop_logged[OF this] obtain new where
      "log = [] @ new" "length new \<le> length ms"
      "\<forall>i < length new. \<exists>out. fst (addInstallHosts_request env path (ms ! i) out) = Inr (new ! i)"
      "r = None \<longrightarrow> length new = length ms" by blast
    then show ?thesis by simp blast
  qed
  from main have len: "length log \<le> length ms" by (rule conjunct1)
  from main have reqs: "\<forall>i < length log. \<exists>path out. fst (addInstallHosts_request env path (ms ! i) out) = Inr (log ! i)"
    by (elim conjE)
  from main have ok: "r = None \<longrightarrow> length log = length ms" by (elim conjE)
  show "length log \<le> length ms" by (rule len)
  show "r = None \<Longrightarrow> length log = length ms" using ok by (rule mp)
  have fields: "map_of (Body (log ! i)) ''name'' = Some (Machine.Name (ms ! i))
     \<and> (\<exists>raw. Marshal env (Driver (ms ! i)) = Inr raw \<and> map_of (Body (log ! i)) ''driver'' = Some raw
           \<and> map_of (Body (log ! i)) ''driverName'' = Some (Machine.DriverName (ms ! i)))"
    if "i < length log" for i
  proof -
    from reqs that obtain path out where
      f: "fst (addInstallHosts_request env path (ms ! i) out) = Inr (log ! i)"
      by blast
    obtain out' where "addInstallHosts_request env path (ms ! i) out = (Inr (log ! i), out')"
      using f by (cases "addInstallHosts_request env path (ms ! i) out") simp
    from request_fields(1,2,3)[OF this]
    show ?thesis by blast
  qed
  show "map (\<lambda>req. map_of (Body req) ''name'') log = map (\<lambda>m. Some (Machine.Name m)) (take (length log) ms)"
  proof (rule nth_equalityI)
    show "length (map (\<lambda>req. map_of (Body req) ''name'') log) =
          length (map (\<lambda>m. Some (Machine.Name m)) (take (length log) ms))"
      using len by simp
    fix i assume "i < length (map (\<lambda>req. map_of (Body req) ''name'') log)"
    then have i: "i < length log" by simp
    with fields[OF i] len
    show "map (\<lambda>req. map_of (Body req) ''name'') log ! i =
          map (\<lambda>m. Some (Machine.Name m)) (take (length log) ms) ! i"
      by simp
  qed
  show "\<forall>i < length log. \<exists>raw. Marshal env (Driver (ms ! i)) = Inr raw
            \<and> map_of (Body (log ! i)) ''driver'' = Some raw
            \<and> map_of (Body (log ! i)) ''driverName'' = Some (Machine.DriverName (ms ! i))"
    using fields by blast
qed


text \<open>The recording changes neither the result, nor the output, nor the platform.\<close>

lemma addInstallHosts_loop_plain:
  "addInstallHosts_loop env (logged_client do) path ms stdout (w, log) = (r, stdout', (w', log')) \<Longrightarrow>
   addInstallHosts_loop env do path ms stdout w = (r, stdout', w')"
proof (induction ms arbitrary: stdout w log)
  case Nil
  then show ?case by simp
next
  case (Cons m ms)
  obtain q out1 where q: "addInstallHosts_request env path m stdout = (q, out1)"
    by (cases "addInstallHosts_request env path m stdout")
  show ?case
  proof (cases q)
    case (Inl err)
    with q Cons.prems show ?thesis by simp
  next
    case (Inr req)
    obtain res w1 where d: "do req w = (res, w1)" by (cases "do req w")
    show ?thesis
    proof (cases res)
      case (Some err)
      with q Inr d Cons.prems show ?thesis by (auto simp: logged_client_simp)
    next
      case None
      with q Inr d Cons.prems Cons.IH show ?thesis by (auto simp: logged_client_simp)
    qed
  qed
qed

lemma Run_registerHosts_plain:
  assumes "Run_registerHosts env range_order (logged_client do) coreMachines appsMachines stdout (w, log)
             = (r, stdout', (w', log'))"
  shows "Run_registerHosts env range_order do coreMachines appsMachines stdout w = (r, stdout', w')"
proof -
  let ?ums = "range_order (map snd (Run_machineIndex (coreMachines @ appsMachines)))"
  obtain r0 out0 w0 l0 where add:
    "addInstallHosts env (logged_client do) ?ums stdout (w, log) = (r0, out0, (w0, l0))"
    by (metis surj_pair)
  have plain: "addInstallHosts env do ?ums stdout w = (r0, out0, w0)"
  proof (cases "GetURLVersion env ''1.3'' ''/install/hosts''")
    case (Inl err)
    with add show ?thesis by (auto simp: addInstallHosts_def)
  next
    case (Inr path)
    with add have "addInstallHosts_loop env (logged_client do) path ?ums stdout (w, log) = (r0, out0, (w0, l0))"
      by (simp add: addInstallHosts_def)
    from addInstallHosts_loop_plain[OF this] Inr show ?thesis by (simp add: addInstallHosts_def)
  qed
  from assms add plain show ?thesis
    by (cases r0) (auto simp: Run_registerHosts_def Let_def)
qed

lemma filter_eq_absent: "a \<notin> set xs \<Longrightarrow> filter (\<lambda>x. x = a) xs = []"
  by (induction xs) auto

lemma distinct_filter_eq_le1: "distinct xs \<Longrightarrow> length (filter (\<lambda>x. x = a) xs) \<le> 1"
  by (induction xs) (auto simp: filter_eq_absent)

lemma distinct_filter_eq_1: "distinct xs \<Longrightarrow> a \<in> set xs \<Longrightarrow> length (filter (\<lambda>x. x = a) xs) = 1"
  by (induction xs) (auto simp: filter_eq_absent)

lemma requests_for_names:
  "length (requests_for n log) =
     length (filter (\<lambda>x. x = Some n) (map (\<lambda>req. map_of (Body req) ''name'') log))"
  by (simp add: requests_for_def filter_map o_def)

lemma run_twins:
  "Run_registerHosts fake_hosts_env rev (logged_client fake_client)
     [twin ''first''] [twin ''second''] [] (0, []) =
   (None, [],
    (1, [\<lparr>Method = ''POST'', URL = ''http://tsuru/1.3/install/hosts'',
          Header = [(''Content-Type'', ''application/x-www-form-urlencoded'')],
          Body = [(''driver'', ''second''), (''name'', ''host-1''), (''driverName'', ''fake''),
                  (''sshPrivateKey'', ''contents of id_rsa''),
                  (''caCert'', ''contents of certs/ca.pem''),
                  (''caPrivateKey'', ''contents of certs/ca-key.pem'')]\<rparr>]))"
  by code_simp


text \<open>
  C6. Registration over the combined list (core machines, then apps machines), on a
  recording client and for every order in which \<^verbatim>\<open>range\<close> may hand out the index: no
  name is registered by more than one request; when registration ends without error,
  every name of the combined list is registered by exactly one request; and every
  request sent carries the name, the driver name and the serialised descriptor of the
  last machine with its name in the combined list. So two machines with one name and
  different descriptors give one request, with the descriptor of the later one. Result,
  output and platform are those of the run on the client itself.
\<close>

theorem Run_registerHosts_one_request_per_name:
  assumes perm: "\<forall>xs. mset (range_order xs) = mset xs"
      and run: "Run_registerHosts env range_order (logged_client do) coreMachines appsMachines
                  stdout (w, []) = (r, stdout', (w', log))"
  shows "(\<forall>n. length (requests_for n log) \<le> 1)
       \<and> (r = None \<longrightarrow>
            (\<forall>n \<in> Machine.Name ` set (coreMachines @ appsMachines).
               length (requests_for n log) = 1))
       \<and> (\<forall>req \<in> set log. \<exists>m raw.
            last_named (coreMachines @ appsMachines) (Machine.Name m) = Some m
          \<and> Marshal env (Driver m) = Inr raw
          \<and> map_of (Body req) ''name'' = Some (Machine.Name m)
          \<and> map_of (Body req) ''driver'' = Some raw
          \<and> map_of (Body req) ''driverName'' = Some (Machine.DriverName m))
       \<and> Run_registerHosts env range_order do coreMachines appsMachines stdout w
            = (r, stdout', w')"
    (is "?A \<and> ?B \<and> ?C \<and> ?D")
proof -
  have d: ?D by (rule Run_registerHosts_plain[OF run])
  let ?all = "coreMachines @ appsMachines"
  let ?idx = "Run_machineIndex ?all"
  let ?ums = "range_order (map snd ?idx)"
  let ?name = "\<lambda>req. map_of (Body req) ''name''"
  obtain r0 out0 st0 where add0: "addInstallHosts env (logged_client do) ?ums stdout (w, []) = (r0, out0, st0)"
    by (metis surj_pair)
  with run have r: "r = None \<longleftrightarrow> r0 = None" and st: "st0 = (w', log)" and "out0 = stdout'"
    by (auto simp: Run_registerHosts_def Let_def split: option.splits)
  with add0 have add: "addInstallHosts env (logged_client do) ?ums stdout (w, []) = (r0, stdout', (w', log))"
    by simp
  note L = addInstallHosts_logged[OF add]
  from perm have ms: "mset ?ums = mset (map snd ?idx)" by blast
  then have set_ums: "set ?ums = snd ` set ?idx" by (metis mset_eq_setD set_map)
  from ms have "mset (map Machine.Name ?ums) = mset (map Machine.Name (map snd ?idx))"
    by (metis mset_map)
  then have "mset (map Machine.Name ?ums) = mset (map fst ?idx)"
    by (simp only: machineIndex_names)
  then have dist: "distinct (map Machine.Name ?ums)"
    using machineIndex_distinct[of ?all] by (metis mset_eq_imp_distinct_iff)
  have names_set: "Machine.Name ` set ?ums = Machine.Name ` set ?all"
  proof -
    have "Machine.Name ` set ?ums = set (map Machine.Name (map snd ?idx))"
      using set_ums by (simp add: image_image)
    also have "\<dots> = fst ` set ?idx" by (simp only: machineIndex_names set_map)
    also have "\<dots> = Machine.Name ` set ?all" by (rule machineIndex_name_set)
    finally show ?thesis .
  qed
  have "distinct (map (\<lambda>m. Some (Machine.Name m)) ?ums)"
    using dist by (simp add: distinct_map inj_on_def)
  then have "distinct (take (length log) (map (\<lambda>m. Some (Machine.Name m)) ?ums))"
    by (rule distinct_take)
  then have dlog: "distinct (map ?name log)"
    by (simp only: L(2) take_map)
  have a: ?A
    by (simp only: requests_for_names) (intro allI distinct_filter_eq_le1 dlog)
  have b: ?B
  proof (intro impI ballI)
    fix n assume "r = None" and n: "n \<in> Machine.Name ` set ?all"
    then have "r0 = None" using r by simp
    from L(4)[OF this] L(1) have "take (length log) ?ums = ?ums" by simp
    with L(2) have "map ?name log = map (\<lambda>m. Some (Machine.Name m)) ?ums" by simp
    then have "set (map ?name log) = Some ` Machine.Name ` set ?ums" by (simp add: image_image)
    with n names_set have "Some n \<in> set (map ?name log)" by simp
    from distinct_filter_eq_1[OF dlog this]
    show "length (requests_for n log) = 1" by (simp only: requests_for_names)
  qed
  have c: ?C
  proof (intro ballI)
    fix req assume "req \<in> set log"
    then obtain i where i: "i < length log" and req: "req = log ! i" by (metis in_set_conv_nth)
    let ?m = "?ums ! i"
    from i L(1) have im: "i < length ?ums" by simp
    then have "?m \<in> set ?ums" by simp
    with set_ums have "?m \<in> snd ` set ?idx" by simp
    then have 1: "last_named ?all (Machine.Name ?m) = Some ?m" by (simp only: machineIndex_values)
    from L(2) i have "map ?name log ! i = map (\<lambda>m. Some (Machine.Name m)) (take (length log) ?ums) ! i"
      by simp
    with i im have 2: "?name req = Some (Machine.Name ?m)" by (simp add: req)
    from L(3) i obtain raw where 3: "Marshal env (Driver ?m) = Inr raw"
      "map_of (Body req) ''driver'' = Some raw"
      "map_of (Body req) ''driverName'' = Some (Machine.DriverName ?m)"
      unfolding req by blast
    show "\<exists>m raw.
            last_named (coreMachines @ appsMachines) (Machine.Name m) = Some m
          \<and> Marshal env (Driver m) = Inr raw
          \<and> map_of (Body req) ''name'' = Some (Machine.Name m)
          \<and> map_of (Body req) ''driver'' = Some raw
          \<and> map_of (Body req) ''driverName'' = Some (Machine.DriverName m)"
      apply (rule exI[of _ ?m], rule exI[of _ raw])
      using 1 2 3 by simp
  qed
  show ?thesis by (intro conjI a b c d)
qed


theorem Run_registerHosts_one_request_per_name_witness:
  "length (requests_for ''host-1''
     (snd (snd (snd (Run_registerHosts fake_hosts_env rev (logged_client fake_client)
        [twin ''first''] [twin ''second''] [] (0, [])))))) = 1
   \<and> map (\<lambda>req. map_of (Body req) ''driver'')
     (snd (snd (snd (Run_registerHosts fake_hosts_env rev (logged_client fake_client)
        [twin ''first''] [twin ''second''] [] (0, []))))) = [Some ''second'']"
proof -
  have perm: "\<forall>xs :: string Machine list. mset (rev xs) = mset xs" by simp
  have n: "''host-1'' \<in> Machine.Name ` set ([twin ''first''] @ [twin ''second''])"
    by (simp add: twin_def)
  from Run_registerHosts_one_request_per_name[OF perm run_twins] n
  have "length (requests_for ''host-1''
          [\<lparr>Method = ''POST'', URL = ''http://tsuru/1.3/install/hosts'',
          Header = [(''Content-Type'', ''application/x-www-form-urlencoded'')],
          Body = [(''driver'', ''second''), (''name'', ''host-1''), (''driverName'', ''fake''),
                  (''sshPrivateKey'', ''contents of id_rsa''),
                  (''caCert'', ''contents of certs/ca.pem''),
                  (''caPrivateKey'', ''contents of certs/ca-key.pem'')]\<rparr>]) = 1"
    by blast
  then show ?thesis unfolding run_twins by simp
qed

subsection \<open>The configuration resolver\<close>

text \<open>
  With an empty path the resolver returns the shared configuration as it is, whatever
  earlier calls have made of it.
\<close>

lemma parseConfigFile_empty_path: "parseConfigFile env [] g = (Inr g, g)"
  by (simp add: parseConfigFile_def)

text \<open>
  With a file whose document holds only \<^verbatim>\<open>hosts:core:size\<close>, the resolver sets
  \<^verbatim>\<open>CoreHosts\<close> in the shared configuration, rebuilds the components configuration from its
  current name and keeps every other field as earlier calls left it.
\<close>

lemma parseConfigFile_core_size_from:
  assumes "file \<noteq> []" and "ReadConfigFile env file = Inr cfg" and "only_core_size cfg n"
  shows "parseConfigFile env file g =
           (Inr (g\<lparr>ComponentsConfig :=
                     NewInstallConfig env (DockerMachineConfig.Name (DockerMachineConfig g)),
                   CoreHosts := n\<rparr>),
            g\<lparr>ComponentsConfig :=
                 NewInstallConfig env (DockerMachineConfig.Name (DockerMachineConfig g)),
               CoreHosts := n\<rparr>)"
  using assms
  by (simp add: parseConfigFile_def only_core_size_def overlay_def
      parseConfigFile_driverOptions_def parseConfigFile_coreOptions_def
      parseConfigFile_appsOptions_def Let_def)

text \<open>
  The first call of a process finds the shared configuration at its initial value. With
  an empty path it then returns the default plan: one core host, one apps host, not
  dedicated, the machine configuration and driver name of
  \<^verbatim>\<open>dm.DefaultDockerMachineConfig\<close>, and no per-index driver option for either pool. With
  a document that holds only \<^verbatim>\<open>hosts:core:size\<close> with value 3 it returns the default plan
  with \<^verbatim>\<open>CoreHosts\<close> set to 3.
\<close>

lemma parseConfigFile_first_call_empty_path:
  "parseConfigFile env [] (defaultTsuruInstallConfig env) =
     (Inr (defaultTsuruInstallConfig env), defaultTsuruInstallConfig env)
   \<and> CoreHosts (defaultTsuruInstallConfig env) = 1
   \<and> AppsHosts (defaultTsuruInstallConfig env) = 1
   \<and> \<not> DedicatedAppsHosts (defaultTsuruInstallConfig env)
   \<and> DockerMachineConfig (defaultTsuruInstallConfig env) = DefaultDockerMachineConfig env
   \<and> DockerMachineConfig.DriverName (DockerMachineConfig (defaultTsuruInstallConfig env)) =
       DockerMachineConfig.DriverName (DefaultDockerMachineConfig env)
   \<and> CoreDriversOpts (defaultTsuruInstallConfig env) = Some []
   \<and> AppsDriversOpts (defaultTsuruInstallConfig env) = []"
  by (simp add: parseConfigFile_def defaultTsuruInstallConfig_def)

lemma parseConfigFile_first_call_core_size:
  assumes "file \<noteq> []" and "ReadConfigFile env file = Inr cfg" and "only_core_size cfg 3"
  shows "parseConfigFile env file (defaultTsuruInstallConfig env) =
           (Inr ((defaultTsuruInstallConfig env)\<lparr>CoreHosts := 3\<rparr>),
            (defaultTsuruInstallConfig env)\<lparr>CoreHosts := 3\<rparr>)"
  using assms
  by (simp add: parseConfigFile_def only_core_size_def overlay_def
      parseConfigFile_driverOptions_def parseConfigFile_coreOptions_def
      parseConfigFile_appsOptions_def defaultTsuruInstallConfig_def Let_def)

text \<open>The plan the resolver makes of \<^verbatim>\<open>ec2.yml\<close> on its first call, left in the shared
  configuration.\<close>

lemma run_ec2:
  "parseConfigFile two_files_env ''ec2.yml'' (defaultTsuruInstallConfig two_files_env) =
     (Inr ec2_plan, ec2_plan)"
  by (simp add: parseConfigFile_def overlay_def ec2_document_def two_files_env_def ec2_plan_def
      parseConfigFile_driverOptions_def parseConfigFile_coreOptions_def
      parseConfigFile_appsOptions_def defaultTsuruInstallConfig_def Let_def
      set_DriverName_def set_Name_def)

lemma two_files_core3:
  "''core3.yml'' \<noteq> []"
  "ReadConfigFile two_files_env ''core3.yml'' = Inr (core_size_document 3)"
  "only_core_size (core_size_document 3) 3"
  by (simp_all add: two_files_env_def only_core_size_def core_size_document_def)

text \<open>
  C7 fails on the code. After the resolver has read \<^verbatim>\<open>ec2.yml\<close>, a call with an empty
  path returns the plan of that file, with two core hosts, four apps hosts, dedicated
  and the driver \<^verbatim>\<open>amazonec2\<close>, where the default plan has one core host, one apps host,
  is not dedicated and has the default driver. The defect is the one of C9: the resolver
  writes through the pointer to the package-level default.
\<close>

theorem parseConfigFile_empty_path_after_file:
  "fst (parseConfigFile two_files_env []
          (snd (parseConfigFile two_files_env ''ec2.yml''
                  (defaultTsuruInstallConfig two_files_env)))) = Inr ec2_plan
   \<and> CoreHosts ec2_plan = 2 \<and> CoreHosts (defaultTsuruInstallConfig two_files_env) = 1
   \<and> AppsHosts ec2_plan = 4 \<and> AppsHosts (defaultTsuruInstallConfig two_files_env) = 1
   \<and> DedicatedAppsHosts ec2_plan \<and> \<not> DedicatedAppsHosts (defaultTsuruInstallConfig two_files_env)
   \<and> DockerMachineConfig.DriverName (DockerMachineConfig ec2_plan) = ''amazonec2''
   \<and> DockerMachineConfig.DriverName (DockerMachineConfig (defaultTsuruInstallConfig two_files_env))
       = ''virtualbox''
   \<and> ec2_plan \<noteq> defaultTsuruInstallConfig two_files_env"
proof -
  have fields: "CoreHosts ec2_plan = 2 \<and> CoreHosts (defaultTsuruInstallConfig two_files_env) = 1
   \<and> AppsHosts ec2_plan = 4 \<and> AppsHosts (defaultTsuruInstallConfig two_files_env) = 1
   \<and> DedicatedAppsHosts ec2_plan \<and> \<not> DedicatedAppsHosts (defaultTsuruInstallConfig two_files_env)
   \<and> DockerMachineConfig.DriverName (DockerMachineConfig ec2_plan) = ''amazonec2''
   \<and> DockerMachineConfig.DriverName (DockerMachineConfig (defaultTsuruInstallConfig two_files_env))
       = ''virtualbox''"
    by (simp add: ec2_plan_def defaultTsuruInstallConfig_def two_files_env_def)
  then have "CoreHosts ec2_plan \<noteq> CoreHosts (defaultTsuruInstallConfig two_files_env)" by simp
  then have differs: "ec2_plan \<noteq> defaultTsuruInstallConfig two_files_env" by auto
  have "fst (parseConfigFile two_files_env []
          (snd (parseConfigFile two_files_env ''ec2.yml''
                  (defaultTsuruInstallConfig two_files_env)))) = Inr ec2_plan"
    unfolding run_ec2 by (simp add: parseConfigFile_empty_path)
  with fields differs show ?thesis by (intro conjI) simp_all
qed

text \<open>
  C8 fails on the code. After the resolver has read \<^verbatim>\<open>ec2.yml\<close>, the plan it makes of
  \<^verbatim>\<open>core3.yml\<close>, whose document holds only \<^verbatim>\<open>hosts:core:size\<close> with value 3, is the plan
  of \<^verbatim>\<open>ec2.yml\<close> with \<^verbatim>\<open>CoreHosts\<close> set to 3: it differs from the default plan also in
  the apps host count, the dedicated flag, the driver name and the installation name.
  The defect is the one of C9: the resolver writes through the pointer to the
  package-level default.
\<close>

theorem parseConfigFile_core_size_after_file:
  "ReadConfigFile two_files_env ''core3.yml'' = Inr (core_size_document 3)
   \<and> only_core_size (core_size_document 3) 3
   \<and> fst (parseConfigFile two_files_env ''core3.yml''
          (snd (parseConfigFile two_files_env ''ec2.yml''
                  (defaultTsuruInstallConfig two_files_env)))) = Inr (ec2_plan\<lparr>CoreHosts := 3\<rparr>)
   \<and> CoreHosts (ec2_plan\<lparr>CoreHosts := 3\<rparr>) = 3
   \<and> AppsHosts (ec2_plan\<lparr>CoreHosts := 3\<rparr>) = 4
   \<and> AppsHosts (defaultTsuruInstallConfig two_files_env) = 1
   \<and> DedicatedAppsHosts (ec2_plan\<lparr>CoreHosts := 3\<rparr>)
   \<and> \<not> DedicatedAppsHosts (defaultTsuruInstallConfig two_files_env)
   \<and> DockerMachineConfig.DriverName (DockerMachineConfig (ec2_plan\<lparr>CoreHosts := 3\<rparr>)) = ''amazonec2''
   \<and> DockerMachineConfig.DriverName (DockerMachineConfig (defaultTsuruInstallConfig two_files_env))
       = ''virtualbox''
   \<and> ec2_plan\<lparr>CoreHosts := 3\<rparr> \<noteq> (defaultTsuruInstallConfig two_files_env)\<lparr>CoreHosts := 3\<rparr>"
proof -
  have fields: "CoreHosts (ec2_plan\<lparr>CoreHosts := 3\<rparr>) = 3
   \<and> AppsHosts (ec2_plan\<lparr>CoreHosts := 3\<rparr>) = 4
   \<and> AppsHosts (defaultTsuruInstallConfig two_files_env) = 1
   \<and> DedicatedAppsHosts (ec2_plan\<lparr>CoreHosts := 3\<rparr>)
   \<and> \<not> DedicatedAppsHosts (defaultTsuruInstallConfig two_files_env)
   \<and> DockerMachineConfig.DriverName (DockerMachineConfig (ec2_plan\<lparr>CoreHosts := 3\<rparr>)) = ''amazonec2''
   \<and> DockerMachineConfig.DriverName (DockerMachineConfig (defaultTsuruInstallConfig two_files_env))
       = ''virtualbox''"
    by (simp add: ec2_plan_def defaultTsuruInstallConfig_def two_files_env_def)
  then have neq: "AppsHosts (ec2_plan\<lparr>CoreHosts := 3\<rparr>)
               \<noteq> AppsHosts ((defaultTsuruInstallConfig two_files_env)\<lparr>CoreHosts := 3\<rparr>)"
    by simp
  have differs:
    "ec2_plan\<lparr>CoreHosts := 3\<rparr> \<noteq> (defaultTsuruInstallConfig two_files_env)\<lparr>CoreHosts := 3\<rparr>"
  proof
    assume "ec2_plan\<lparr>CoreHosts := 3\<rparr> = (defaultTsuruInstallConfig two_files_env)\<lparr>CoreHosts := 3\<rparr>"
    then have "AppsHosts (ec2_plan\<lparr>CoreHosts := 3\<rparr>)
                 = AppsHosts ((defaultTsuruInstallConfig two_files_env)\<lparr>CoreHosts := 3\<rparr>)"
      by (rule arg_cong)
    with neq show False by simp
  qed
  have rebuilt: "ec2_plan\<lparr>ComponentsConfig :=
                     NewInstallConfig two_files_env
                       (DockerMachineConfig.Name (DockerMachineConfig ec2_plan)),
                   CoreHosts := 3\<rparr> = ec2_plan\<lparr>CoreHosts := 3\<rparr>"
    by (simp add: ec2_plan_def two_files_env_def)
  have "fst (parseConfigFile two_files_env ''core3.yml''
          (snd (parseConfigFile two_files_env ''ec2.yml''
                  (defaultTsuruInstallConfig two_files_env)))) = Inr (ec2_plan\<lparr>CoreHosts := 3\<rparr>)"
    unfolding run_ec2
    by (simp add: parseConfigFile_core_size_from[OF two_files_core3] rebuilt)
  with fields differs two_files_core3(2,3) show ?thesis by (intro conjI) simp_all
qed

text \<open>
  C9 fails on the code. After the resolver has read a file that sets
  \<^verbatim>\<open>hosts:core:size\<close> to 3, the shared default itself has \<^verbatim>\<open>CoreHosts = 3\<close>, and a
  second call with an empty path returns that value, not the default plan. The
  open-port assignment of \<^verbatim>\<open>Run\<close> changes the shared default in the same way.
\<close>

theorem parseConfigFile_overwrites_default:
  "snd (parseConfigFile fake_config_env ''core3.yml'' (defaultTsuruInstallConfig fake_config_env)) =
     (defaultTsuruInstallConfig fake_config_env)\<lparr>CoreHosts := 3\<rparr>
   \<and> fst (parseConfigFile fake_config_env []
            (snd (parseConfigFile fake_config_env ''core3.yml''
                    (defaultTsuruInstallConfig fake_config_env)))) =
       Inr ((defaultTsuruInstallConfig fake_config_env)\<lparr>CoreHosts := 3\<rparr>)
   \<and> (defaultTsuruInstallConfig fake_config_env)\<lparr>CoreHosts := 3\<rparr>
       \<noteq> defaultTsuruInstallConfig fake_config_env
   \<and> CoreHosts ((defaultTsuruInstallConfig fake_config_env)\<lparr>CoreHosts := 3\<rparr>) = 3
   \<and> Run_openPort ''8080'' (defaultTsuruInstallConfig fake_config_env) =
       Inr ((defaultTsuruInstallConfig fake_config_env)
              \<lparr>CoreDriversOpts := Some [(''virtualbox-open-port'', [VString ''8080''])]\<rparr>)
   \<and> fst (parseConfigFile fake_config_env []
            ((defaultTsuruInstallConfig fake_config_env)
              \<lparr>CoreDriversOpts := Some [(''virtualbox-open-port'', [VString ''8080''])]\<rparr>)) =
       Inr ((defaultTsuruInstallConfig fake_config_env)
              \<lparr>CoreDriversOpts := Some [(''virtualbox-open-port'', [VString ''8080''])]\<rparr>)"
proof -
  have h: "''core3.yml'' \<noteq> []" "ReadConfigFile fake_config_env ''core3.yml'' = Inr (core_size_document 3)"
     "only_core_size (core_size_document 3) 3"
    by (simp_all add: fake_config_env_def only_core_size_def core_size_document_def)
  have 1: "parseConfigFile fake_config_env ''core3.yml'' (defaultTsuruInstallConfig fake_config_env) =
           (Inr ((defaultTsuruInstallConfig fake_config_env)\<lparr>CoreHosts := 3\<rparr>),
            (defaultTsuruInstallConfig fake_config_env)\<lparr>CoreHosts := 3\<rparr>)"
    using h
    by (simp add: parseConfigFile_def only_core_size_def overlay_def
      parseConfigFile_driverOptions_def parseConfigFile_coreOptions_def
      parseConfigFile_appsOptions_def defaultTsuruInstallConfig_def Let_def)
  have 2: "(defaultTsuruInstallConfig fake_config_env)\<lparr>CoreHosts := 3\<rparr>
       \<noteq> defaultTsuruInstallConfig fake_config_env"
    by (simp add: defaultTsuruInstallConfig_def)
  have 3: "Run_openPort ''8080'' (defaultTsuruInstallConfig fake_config_env) =
             Inr ((defaultTsuruInstallConfig fake_config_env)
              \<lparr>CoreDriversOpts := Some [(''virtualbox-open-port'', [VString ''8080''])]\<rparr>)"
    by (simp add: Run_openPort_def defaultTsuruInstallConfig_def fake_config_env_def)
  show ?thesis unfolding 1 3 using 2 by (simp add: parseConfigFile_empty_path)
qed

text \<open>
  What is left of a failed parse of \<^verbatim>\<open>hosts:core:driver:options\<close> is the nil map in the
  shared configuration, and on a nil map the open-port assignment of \<^verbatim>\<open>Run\<close> panics.
\<close>

lemma parseConfigFile_coreOptions_leaves_nil:
  "Get cfg ''hosts:core:driver:options'' = VString x \<Longrightarrow>
   parseConfigFile_coreOptions env cfg g =
     (Some (Error (''failed to parse opts: '' @ Sprintf_v env (VString x))),
      g\<lparr>CoreDriversOpts := None\<rparr>)"
  by (simp add: parseConfigFile_coreOptions_def parseDriverOptsSlice_def)

lemma Run_openPort_nil:
  "CoreDriversOpts config = None \<Longrightarrow> Run_openPort port config = Inl (Panic AssignToNilMap)"
  by (simp add: Run_openPort_def)

end
